theory Spec2Isabelle
  imports Main
begin

section \<open>Exceptions\<close>

text \<open>
  Every exception that the modelled code can raise is a value of \<open>error\<close>. The two
  share errors carry the ASCII storage index and the share number, as the Python classes
  \<^verbatim>\<open>ShareAlreadyInDatabaseError\<close> and \<^verbatim>\<open>NonExistentShareError\<close> do.
  \<open>IntegrityError\<close> is the database's constraint violation and \<open>OperationalError\<close> its
  refusal of a statement that it cannot carry out; the others are Python's built-in
  exceptions.
\<close>

datatype error =
    BadAccountName
  | ShareAlreadyInDatabaseError string int
  | NonExistentShareError string int
  | NonExistentLeaseError
  | NotImplementedError
  | IntegrityError
  | AssertionError
  | IndexError
  | KeyError
  | ValueError
  | OverflowError
  | OperationalError

section \<open>expiration.py: ExpirationPolicy\<close>

text \<open>
  The private attributes \<^verbatim>\<open>_enabled\<close>, \<^verbatim>\<open>_mode\<close>,
  \<^verbatim>\<open>_override_lease_duration\<close> and \<^verbatim>\<open>_cutoff_date\<close> are the fields
  \<open>p_enabled\<close>, \<open>p_mode\<close>, \<open>p_override_lease_duration\<close> and \<open>p_cutoff_date\<close>.
  Python's \<^verbatim>\<open>None\<close> is \<open>None\<close>. Times are whole seconds since the epoch.
\<close>

record ExpirationPolicy =
  p_enabled :: bool
  p_mode :: string
  p_override_lease_duration :: "int option"
  p_cutoff_date :: "int option"

text \<open>
  \<^verbatim>\<open>__init__\<close>: the two \<^verbatim>\<open>isinstance\<close> preconditions on \<^verbatim>\<open>enabled\<close> and
  \<^verbatim>\<open>override_lease_duration\<close> hold by typing; the other two are checked in the
  source's order. A failed \<^verbatim>\<open>precondition\<close> raises \<^verbatim>\<open>AssertionError\<close>.
\<close>

definition ExpirationPolicy_init ::
  "bool \<Rightarrow> string \<Rightarrow> int option \<Rightarrow> int option \<Rightarrow> error + ExpirationPolicy" where
  "ExpirationPolicy_init enabled mode override_lease_duration cutoff_date =
     (if \<not> (mode = ''age'' \<or> mode = ''cutoff-date'') then Inl AssertionError
      else if \<not> (cutoff_date \<noteq> None \<or> (mode \<noteq> ''cutoff-date'' \<and> cutoff_date = None))
        then Inl AssertionError
      else Inr \<lparr>p_enabled = enabled, p_mode = mode,
                p_override_lease_duration = override_lease_duration,
                p_cutoff_date = cutoff_date\<rparr>)"

text \<open>
  \<^verbatim>\<open>current_time >= expiry_time\<close>, where \<^verbatim>\<open>expiry_time\<close> may be \<^verbatim>\<open>None\<close>
  (a cutoff date that was never set): Python 2 orders \<^verbatim>\<open>None\<close> below every number.
\<close>

fun py2_ge :: "int \<Rightarrow> int option \<Rightarrow> bool" where
  "py2_ge a None = True"
| "py2_ge a (Some b) = (b \<le> a)"

definition should_expire :: "ExpirationPolicy \<Rightarrow> int \<Rightarrow> int \<Rightarrow> int \<Rightarrow> bool" where
  "should_expire self current_time renewal_time expiration_time =
     (if \<not> p_enabled self then False
      else
        (let expiry_time =
           (if p_mode self = ''age'' then
              (case p_override_lease_duration self of
                 None \<Rightarrow> Some expiration_time
               | Some d \<Rightarrow> Some (renewal_time + d))
            else p_cutoff_date self)
         in py2_ge current_time expiry_time))"

definition get_parameters ::
  "ExpirationPolicy \<Rightarrow> string \<times> int option \<times> int option \<times> string list" where
  "get_parameters self =
     (p_mode self, p_override_lease_duration self, p_cutoff_date self,
      (if p_enabled self then [''mutable'', ''immutable''] else []))"

definition is_enabled :: "ExpirationPolicy \<Rightarrow> bool" where
  "is_enabled self = p_enabled self"

section \<open>leasedb.py: constants and tables\<close>

definition SHARETYPE_IMMUTABLE :: int where "SHARETYPE_IMMUTABLE = 0"
definition SHARETYPE_MUTABLE :: int where "SHARETYPE_MUTABLE = 1"
definition SHARETYPE_CORRUPTED :: int where "SHARETYPE_CORRUPTED = 2"
definition SHARETYPE_UNKNOWN :: int where "SHARETYPE_UNKNOWN = 3"

text \<open>The dictionary \<^verbatim>\<open>SHARETYPES\<close>, as the list of its items.\<close>

definition SHARETYPES :: "(int \<times> string) list" where
  "SHARETYPES = [(SHARETYPE_IMMUTABLE, ''immutable''), (SHARETYPE_MUTABLE, ''mutable''),
                 (SHARETYPE_CORRUPTED, ''corrupted''), (SHARETYPE_UNKNOWN, ''unknown'')]"

definition STATE_COMING :: int where "STATE_COMING = 0"
definition STATE_STABLE :: int where "STATE_STABLE = 1"
definition STATE_GOING :: int where "STATE_GOING = 2"

definition DAY :: int where "DAY = 24 * 60 * 60"
definition MONTH :: int where "MONTH = 30 * DAY"

definition ANONYMOUS_ACCOUNTID :: int where "ANONYMOUS_ACCOUNTID = 0"
definition STARTER_LEASE_ACCOUNTID :: int where "STARTER_LEASE_ACCOUNTID = 1"
definition STARTER_LEASE_DURATION :: int where "STARTER_LEASE_DURATION = 2 * MONTH"

text \<open>
  The rows of the schema \<^verbatim>\<open>LEASE_SCHEMA_V1\<close>. A column \<^verbatim>\<open>c\<close> of the table
  \<^verbatim>\<open>shares\<close>, \<^verbatim>\<open>leases\<close> or \<^verbatim>\<open>accounts\<close> is the field \<open>s_c\<close>, \<open>l_c\<close> or
  \<open>a_c\<close>. A row of \<^verbatim>\<open>crawler_history\<close> is a pair of the cycle and the JSON text.
  The tables \<^verbatim>\<open>version\<close> and \<^verbatim>\<open>account_attributes\<close> are never read or written by
  the code modelled here and are left out.
\<close>

record share_row =
  s_storage_index :: string
  s_shnum :: int
  s_prefix :: string
  s_backend_key :: "string option"
  s_used_space :: int
  s_sharetype :: int
  s_state :: int

record lease_row =
  l_id :: int
  l_storage_index :: string
  l_shnum :: int
  l_account_id :: int
  l_renewal_time :: int
  l_expiration_time :: int

record account_row =
  a_id :: int
  a_pubkey_vs :: string
  a_creation_time :: int

type_synonym snapshot =
  "share_row list \<times> lease_row list \<times> int \<times> account_row list \<times> (int \<times> string) list"

text \<open>
  The \<^verbatim>\<open>LeaseDB\<close> object with its connection. A table is the list of its rows in
  insertion order. \<open>leases_seq\<close> is the largest id that \<^verbatim>\<open>AUTOINCREMENT\<close> has handed
  out for \<^verbatim>\<open>leases\<close>. \<open>committed\<close> is the content of the database file as of the
  last commit; the tables themselves are the connection's view, which includes the open
  transaction. \<open>foreign_keys\<close> tells whether the connection enforces the schema's
  \<^verbatim>\<open>FOREIGN KEY\<close> clauses: the connection is opened by \<^verbatim>\<open>dbutil.get_db\<close>, which is
  not part of the sources modelled here, so both settings are covered. The attribute
  \<^verbatim>\<open>debug\<close> only controls printing and is left out.
\<close>

record LeaseDB =
  shares :: "share_row list"
  leases :: "lease_row list"
  leases_seq :: int
  accounts :: "account_row list"
  crawler_history :: "(int \<times> string) list"
  committed :: snapshot
  dirty :: bool
  foreign_keys :: bool
  retained_history_entries :: int

definition tables :: "LeaseDB \<Rightarrow> snapshot" where
  "tables self =
     (shares self, leases self, leases_seq self, accounts self, crawler_history self)"

text \<open>
  \<^verbatim>\<open>__init__\<close> on a database file that does not exist yet: the schema is installed
  with its two accounts and committed.
\<close>

definition LeaseDB_init :: "bool \<Rightarrow> LeaseDB" where
  "LeaseDB_init fk =
     (let seed = [\<lparr>a_id = 0, a_pubkey_vs = ''anonymous'', a_creation_time = 0\<rparr>,
                  \<lparr>a_id = 1, a_pubkey_vs = ''starter'', a_creation_time = 0\<rparr>]
      in \<lparr>shares = [], leases = [], leases_seq = 0, accounts = seed, crawler_history = [],
           committed = ([], [], 0, seed, []), dirty = False, foreign_keys = fk,
           retained_history_entries = 10\<rparr>)"

section \<open>leasedb.py: LeaseDB, share management\<close>

text \<open>
  A method that returns nothing is a function to the exception it raised, if any, and the
  object after the call: Python does not undo the statements that ran before a
  \<^verbatim>\<open>raise\<close>. \<^verbatim>\<open>si_b2a\<close> and \<^verbatim>\<open>si_a2b\<close> are imported from
  \<^verbatim>\<open>allmydata.storage.common\<close>, which is not part of the sources modelled here; every
  method takes the function it calls as its first argument.
\<close>

text \<open>The condition \<^verbatim>\<open>WHERE `storage_index`=? AND `shnum`=?\<close> on the two tables.\<close>

definition share_is :: "string \<Rightarrow> int \<Rightarrow> share_row \<Rightarrow> bool" where
  "share_is si_s shnum s = (s_storage_index s = si_s \<and> s_shnum s = shnum)"

definition lease_on :: "string \<Rightarrow> int \<Rightarrow> lease_row \<Rightarrow> bool" where
  "lease_on si_s shnum l = (l_storage_index l = si_s \<and> l_shnum l = shnum)"

text \<open>
  The condition \<^verbatim>\<open>WHERE `storage_index`=? AND `shnum`=? AND `account_id`=?\<close>.
\<close>

definition lease_key :: "string \<Rightarrow> int \<Rightarrow> int \<Rightarrow> lease_row \<Rightarrow> bool" where
  "lease_key si_s shnum account l = (lease_on si_s shnum l \<and> l_account_id l = account)"

definition get_shares_for_prefix ::
  "LeaseDB \<Rightarrow> string \<Rightarrow> ((string \<times> int) \<times> (int \<times> int)) list" where
  "get_shares_for_prefix self prefix =
     map (\<lambda>s. ((s_storage_index s, s_shnum s), (s_used_space s, s_sharetype s)))
       (filter (\<lambda>s. s_prefix s = prefix) (shares self))"

definition add_new_share ::
  "(string \<Rightarrow> string) \<Rightarrow> LeaseDB \<Rightarrow> string \<Rightarrow> int \<Rightarrow> int \<Rightarrow> int \<Rightarrow> error option \<times> LeaseDB" where
  "add_new_share si_b2a self storage_index shnum used_space sharetype =
     (let si_s = si_b2a storage_index;
          prefix = take 2 si_s;
          db = self\<lparr>dirty := True\<rparr>
      in if list_ex (share_is si_s shnum) (shares db)
         then (Some (ShareAlreadyInDatabaseError si_s shnum), db)
         else (None, db\<lparr>shares := shares db @
                 [\<lparr>s_storage_index = si_s, s_shnum = shnum, s_prefix = prefix,
                   s_backend_key = None, s_used_space = used_space,
                   s_sharetype = sharetype, s_state = STATE_COMING\<rparr>]\<rparr>))"

text \<open>
  An \<^verbatim>\<open>INTEGER\<close> of the database is a signed number of 64 bits. When a statement of
  \<^verbatim>\<open>add_starter_lease\<close> or \<^verbatim>\<open>add_or_renew_leases\<close> is given a Python integer
  outside this range as a parameter, the database module raises \<^verbatim>\<open>OverflowError\<close>
  and the statement does not run.
\<close>

definition sqlite_int :: "int \<Rightarrow> bool" where
  "sqlite_int i = (- (2 ^ 63) \<le> i \<and> i < 2 ^ 63)"

text \<open>
  \<^verbatim>\<open>INSERT INTO `leases` VALUES (NULL, si_s, shnum, account, renewal, expiration)\<close>.
  The parameters are bound first. The id is the next of the sequence; once
  \<^verbatim>\<open>AUTOINCREMENT\<close> has handed out the largest id, \<open>2 ^ 63 - 1\<close>, the database
  refuses every insertion. The column \<^verbatim>\<open>shnum\<close> is \<^verbatim>\<open>not null\<close>. With foreign keys
  enforced, the share and the account must exist.
\<close>

definition insert_lease ::
  "LeaseDB \<Rightarrow> string \<Rightarrow> int option \<Rightarrow> int \<Rightarrow> int \<Rightarrow> int \<Rightarrow> error option \<times> LeaseDB" where
  "insert_lease db si_s shnum account renewal expiration =
     (if \<not> ((case shnum of None \<Rightarrow> True | Some n \<Rightarrow> sqlite_int n) \<and> sqlite_int account \<and>
             sqlite_int renewal \<and> sqlite_int expiration)
      then (Some OverflowError, db)
      else if 2 ^ 63 \<le> leases_seq db + 1 then (Some OperationalError, db)
      else
        (case shnum of
           None \<Rightarrow> (Some IntegrityError, db)
         | Some n \<Rightarrow>
             if foreign_keys db \<and>
                \<not> (list_ex (share_is si_s n) (shares db) \<and>
                   list_ex (\<lambda>a. a_id a = account) (accounts db))
             then (Some IntegrityError, db)
             else (None, db\<lparr>leases := leases db @
                     [\<lparr>l_id = leases_seq db + 1, l_storage_index = si_s, l_shnum = n,
                       l_account_id = account, l_renewal_time = renewal,
                       l_expiration_time = expiration\<rparr>],
                     leases_seq := leases_seq db + 1\<rparr>)))"

text \<open>\<open>now\<close> is the value that \<^verbatim>\<open>time.time()\<close> returns, in whole seconds.\<close>

definition add_starter_lease ::
  "(string \<Rightarrow> string) \<Rightarrow> int \<Rightarrow> LeaseDB \<Rightarrow> string \<Rightarrow> int \<Rightarrow> error option \<times> LeaseDB" where
  "add_starter_lease si_b2a now self storage_index shnum =
     (let si_s = si_b2a storage_index;
          db = self\<lparr>dirty := True\<rparr>;
          renewal_time = now
      in insert_lease db si_s (Some shnum) STARTER_LEASE_ACCOUNTID
           renewal_time (renewal_time + STARTER_LEASE_DURATION))"

definition mark_share_as_stable ::
  "(string \<Rightarrow> string) \<Rightarrow> LeaseDB \<Rightarrow> string \<Rightarrow> int \<Rightarrow> int \<Rightarrow> string option
     \<Rightarrow> error option \<times> LeaseDB" where
  "mark_share_as_stable si_b2a self storage_index shnum used_space backend_key =
     (let si_s = si_b2a storage_index;
          db = self\<lparr>dirty := True\<rparr>;
          hit = (\<lambda>s. share_is si_s shnum s \<and> s_state s \<noteq> STATE_GOING);
          rowcount = length (filter hit (shares db));
          db' = db\<lparr>shares := map (\<lambda>s. if hit s
                     then s\<lparr>s_state := STATE_STABLE, s_used_space := used_space,
                            s_backend_key := backend_key\<rparr>
                     else s) (shares db)\<rparr>
      in if rowcount < 1 then (Some (NonExistentShareError si_s shnum), db')
         else (None, db'))"

definition mark_share_as_going ::
  "(string \<Rightarrow> string) \<Rightarrow> LeaseDB \<Rightarrow> string \<Rightarrow> int \<Rightarrow> error option \<times> LeaseDB" where
  "mark_share_as_going si_b2a self storage_index shnum =
     (let si_s = si_b2a storage_index;
          db = self\<lparr>dirty := True\<rparr>;
          hit = (\<lambda>s. share_is si_s shnum s \<and> s_state s \<noteq> STATE_COMING);
          rowcount = length (filter hit (shares db));
          db' = db\<lparr>shares := map (\<lambda>s. if hit s then s\<lparr>s_state := STATE_GOING\<rparr> else s)
                     (shares db)\<rparr>
      in if rowcount < 1 then (Some (NonExistentShareError si_s shnum), db')
         else (None, db'))"

text \<open>
  The leases are deleted first. With foreign keys enforced, deleting a share row that a
  lease still references is refused.
\<close>

definition remove_deleted_share ::
  "(string \<Rightarrow> string) \<Rightarrow> LeaseDB \<Rightarrow> string \<Rightarrow> int \<Rightarrow> error option \<times> LeaseDB" where
  "remove_deleted_share si_b2a self storage_index shnum =
     (let si_s = si_b2a storage_index;
          db = self\<lparr>dirty := True\<rparr>;
          db' = db\<lparr>leases := filter (\<lambda>l. \<not> lease_on si_s shnum l) (leases db)\<rparr>
      in if foreign_keys db' \<and> list_ex (share_is si_s shnum) (shares db') \<and>
            list_ex (lease_on si_s shnum) (leases db')
         then (Some IntegrityError, db')
         else (None, db'\<lparr>shares := filter (\<lambda>s. \<not> share_is si_s shnum s) (shares db')\<rparr>))"

definition change_share_space ::
  "(string \<Rightarrow> string) \<Rightarrow> LeaseDB \<Rightarrow> string \<Rightarrow> int \<Rightarrow> int \<Rightarrow> error option \<times> LeaseDB" where
  "change_share_space si_b2a self storage_index shnum used_space =
     (let si_s = si_b2a storage_index;
          db = self\<lparr>dirty := True\<rparr>;
          rowcount = length (filter (share_is si_s shnum) (shares db));
          db' = db\<lparr>shares := map (\<lambda>s. if share_is si_s shnum s
                     then s\<lparr>s_used_space := used_space\<rparr> else s) (shares db)\<rparr>
      in if rowcount < 1 then (Some (NonExistentShareError si_s shnum), db')
         else (None, db'))"

section \<open>leasedb.py: LeaseDB, lease management\<close>

text \<open>
  \<^verbatim>\<open>UPDATE `leases` SET `renewal_time`=?, `expiration_time`=? WHERE `id`=?\<close>.
\<close>

definition update_lease :: "int \<Rightarrow> int \<Rightarrow> int \<Rightarrow> lease_row \<Rightarrow> lease_row" where
  "update_lease leaseid renewal_time expiration_time l =
     (if l_id l = leaseid
      then l\<lparr>l_renewal_time := renewal_time, l_expiration_time := expiration_time\<rparr>
      else l)"

text \<open>
  The loop of \<^verbatim>\<open>add_or_renew_leases\<close> over the selected share rows. The select of
  the lease id binds \<^verbatim>\<open>ownerid\<close>, and the update binds the two timestamps; the share
  number and the lease id that the loop passes on were read from the database.
  \<^verbatim>\<open>fetchone\<close> is the first matching row. The insert passes the argument
  \<^verbatim>\<open>shnum\<close>, not \<^verbatim>\<open>found_shnum\<close>, as the source does.
\<close>

fun renew_rows ::
  "LeaseDB \<Rightarrow> string \<Rightarrow> int option \<Rightarrow> int \<Rightarrow> int \<Rightarrow> int \<Rightarrow> (string \<times> int) list
     \<Rightarrow> error option \<times> LeaseDB" where
  "renew_rows db si_s shnum ownerid renewal_time expiration_time [] = (None, db)"
| "renew_rows db si_s shnum ownerid renewal_time expiration_time
     ((found_si_s, found_shnum) # rows) =
     (if si_s \<noteq> found_si_s then (Some AssertionError, db)
      else if \<not> sqlite_int ownerid then (Some OverflowError, db)
      else
        (case find (lease_key si_s found_shnum ownerid) (leases db) of
           Some row \<Rightarrow>
             if \<not> (sqlite_int renewal_time \<and> sqlite_int expiration_time)
             then (Some OverflowError, db)
             else
               renew_rows
                 (db\<lparr>leases := map (update_lease (l_id row) renewal_time expiration_time)
                                 (leases db)\<rparr>)
                 si_s shnum ownerid renewal_time expiration_time rows
         | None \<Rightarrow>
             (case insert_lease db si_s shnum ownerid renewal_time expiration_time of
                (Some e, db') \<Rightarrow> (Some e, db')
              | (None, db') \<Rightarrow>
                  renew_rows db' si_s shnum ownerid renewal_time expiration_time rows)))"

definition add_or_renew_leases ::
  "(string \<Rightarrow> string) \<Rightarrow> LeaseDB \<Rightarrow> string \<Rightarrow> int option \<Rightarrow> int \<Rightarrow> int \<Rightarrow> int
     \<Rightarrow> error option \<times> LeaseDB" where
  "add_or_renew_leases si_b2a self storage_index shnum ownerid renewal_time expiration_time =
     (let si_s = si_b2a storage_index;
          db = self\<lparr>dirty := True\<rparr>
      in case shnum of
           None \<Rightarrow>
             renew_rows db si_s shnum ownerid renewal_time expiration_time
               (map (\<lambda>s. (s_storage_index s, s_shnum s))
                  (filter (\<lambda>s. s_storage_index s = si_s) (shares db)))
         | Some n \<Rightarrow>
             if \<not> sqlite_int n then (Some OverflowError, db)
             else
               (let rows = map (\<lambda>s. (s_storage_index s, s_shnum s))
                             (filter (share_is si_s n) (shares db))
                in if rows = [] then (Some (NonExistentShareError si_s n), db)
                   else renew_rows db si_s shnum ownerid renewal_time expiration_time rows))"

definition get_lease_ages ::
  "(string \<Rightarrow> string) \<Rightarrow> LeaseDB \<Rightarrow> string \<Rightarrow> int \<Rightarrow> int \<Rightarrow> int list" where
  "get_lease_ages si_b2a self storage_index shnum now =
     (let si_s = si_b2a storage_index
      in map (\<lambda>l. now - l_renewal_time l) (filter (lease_on si_s shnum) (leases self)))"

definition remove_expired_leases ::
  "LeaseDB \<Rightarrow> ExpirationPolicy \<Rightarrow> error option \<times> LeaseDB" where
  "remove_expired_leases self expiration_policy = (Some NotImplementedError, self)"

section \<open>leasedb.py: LeaseDB, history and commit\<close>

definition commit :: "LeaseDB \<Rightarrow> bool \<Rightarrow> LeaseDB" where
  "commit self always =
     (if dirty self \<or> always then self\<lparr>committed := tables self, dirty := False\<rparr>
      else self)"

text \<open>
  Python's \<^verbatim>\<open>xs[i]\<close> on a list of length \<open>n\<close>: a negative index counts from the
  end, and an index out of range raises \<^verbatim>\<open>IndexError\<close>.
\<close>

definition py_position :: "nat \<Rightarrow> int \<Rightarrow> nat option" where
  "py_position n i =
     (if 0 \<le> i \<and> i < int n then Some (nat i)
      else if - int n \<le> i \<and> i < 0 then Some (nat (int n + i))
      else None)"

definition py_index :: "'a list \<Rightarrow> int \<Rightarrow> error + 'a" where
  "py_index xs i =
     (case py_position (length xs) i of
        None \<Rightarrow> Inl IndexError
      | Some k \<Rightarrow> Inr (xs ! k))"

text \<open>
  \<^verbatim>\<open>simplejson.dumps\<close> is the argument \<open>dumps\<close>. \<^verbatim>\<open>INSERT OR REPLACE\<close> removes
  the row that holds the same cycle (the index on \<^verbatim>\<open>cycle\<close> is unique) and inserts
  the new row.
\<close>

definition add_history_entry ::
  "('e \<Rightarrow> string) \<Rightarrow> LeaseDB \<Rightarrow> int \<Rightarrow> 'e \<Rightarrow> error option \<times> LeaseDB" where
  "add_history_entry dumps self cycle entry =
     (let json = dumps entry;
          rows = map fst (crawler_history self);
          pruned =
            (if retained_history_entries self \<le> int (length rows) then
               (case py_index (sort rows) (- (retained_history_entries self - 1)) of
                  Inl e \<Rightarrow> Inl e
                | Inr first_cycle_to_retain \<Rightarrow>
                    Inr (self\<lparr>crawler_history :=
                           filter (\<lambda>(c, j). \<not> c < first_cycle_to_retain)
                             (crawler_history self)\<rparr>))
             else Inr self)
      in case pruned of
           Inl e \<Rightarrow> (Some e, self)
         | Inr db \<Rightarrow>
             (None, commit (db\<lparr>crawler_history :=
                       filter (\<lambda>(c, j). c \<noteq> cycle) (crawler_history db) @ [(cycle, json)]\<rparr>)
                     True))"

text \<open>
  \<^verbatim>\<open>simplejson.loads\<close> is the argument \<open>loads\<close>. \<^verbatim>\<open>dict(decoded)\<close> keeps the last
  pair of each key.
\<close>

definition get_history :: "(string \<Rightarrow> 'e) \<Rightarrow> LeaseDB \<Rightarrow> (int \<Rightarrow> 'e option)" where
  "get_history loads self =
     fold (\<lambda>(c, j) m. m(c \<mapsto> loads j)) (crawler_history self) Map.empty"

section \<open>leasedb.py: AccountingCrawler\<close>

text \<open>
  The crawler with the two parts of \<^verbatim>\<open>self.state["cycle-to-date"]\<close> that
  \<^verbatim>\<open>process_prefixdir\<close> updates, and its lease database. A dictionary of counters
  is the list of its items. What the source prints to standard output is left out, here
  and in \<^verbatim>\<open>LeaseDB\<close>.
\<close>

record AccountingCrawler =
  c_space_recovered :: "(string \<times> int) list"
  c_lease_age_histogram :: "((int \<times> int) \<times> int) list"
  c_leasedb :: LeaseDB

fun dict_set :: "('k \<times> 'v) list \<Rightarrow> 'k \<Rightarrow> 'v \<Rightarrow> ('k \<times> 'v) list" where
  "dict_set [] k v = [(k, v)]"
| "dict_set ((k', v') # d) k v = (if k' = k then (k, v) # d else (k', v') # dict_set d k v)"

definition increment :: "('k \<times> int) list \<Rightarrow> 'k \<Rightarrow> int \<Rightarrow> ('k \<times> int) list" where
  "increment d k delta =
     (let d' = (if map_of d k = None then dict_set d k 0 else d)
      in dict_set d' k ((case map_of d' k of None \<Rightarrow> 0 | Some v \<Rightarrow> v) + delta))"

text \<open>
  \<^verbatim>\<open>int(age/bin_interval)\<close> rounds towards zero.
\<close>

definition add_lease_age_to_histogram :: "AccountingCrawler \<Rightarrow> int \<Rightarrow> AccountingCrawler" where
  "add_lease_age_to_histogram self age =
     (let bin_interval = 24 * 60 * 60;
          bin_number = (if 0 \<le> age then age div bin_interval else - ((- age) div bin_interval));
          bin_start = bin_number * bin_interval;
          bin_end = bin_start + bin_interval;
          k = (bin_start, bin_end)
      in self\<lparr>c_lease_age_histogram := increment (c_lease_age_histogram self) k 1\<rparr>)"

text \<open>
  Python's \<^verbatim>\<open>int(s)\<close> on a file name: surrounding white space and one sign are
  accepted around a non-empty run of decimal digits; anything else raises
  \<^verbatim>\<open>ValueError\<close>, here \<open>None\<close>.
\<close>

definition is_space :: "char \<Rightarrow> bool" where
  "is_space c = (c = CHR '' '' \<or> (9 \<le> (of_char c :: nat) \<and> (of_char c :: nat) \<le> 13))"

definition is_digit :: "char \<Rightarrow> bool" where
  "is_digit c = (48 \<le> (of_char c :: nat) \<and> (of_char c :: nat) \<le> 57)"

definition py_int :: "string \<Rightarrow> int option" where
  "py_int s =
     (let t = dropWhile is_space (rev (dropWhile is_space (rev s)));
          neg = (t \<noteq> [] \<and> hd t = CHR ''-'');
          ds = (if t \<noteq> [] \<and> (hd t = CHR ''-'' \<or> hd t = CHR ''+'') then tl t else t);
          n = foldl (\<lambda>a c. 10 * a + (of_char c - 48)) (0::nat) ds
      in if ds \<noteq> [] \<and> list_all is_digit ds
         then Some (if neg then - int n else int n)
         else None)"

text \<open>
  The first loop of \<^verbatim>\<open>process_prefixdir\<close>: the share ids on disk. \<open>listdir\<close> gives
  the file names of a bucket directory, named by the prefix directory and the bucket.
  A Python set is a list without duplicates.
\<close>

definition disk_shares_of ::
  "(string \<Rightarrow> string \<Rightarrow> string list) \<Rightarrow> string \<Rightarrow> string list \<Rightarrow> (string \<times> int) list" where
  "disk_shares_of listdir prefixdir buckets =
     remdups (concat (map (\<lambda>si_s.
        List.map_filter (\<lambda>sharefile. map_option (\<lambda>shnum. (si_s, shnum)) (py_int sharefile))
          (listdir prefixdir si_s)) buckets))"

text \<open>
  The loop over \<^verbatim>\<open>db_sharemap.iteritems()\<close>: the statistics of the shares that the
  database holds for the prefix. \<open>sharesets\<close> is the list of the four sets of storage
  indices. \<^verbatim>\<open>si_a2b\<close> may raise.
\<close>

fun examine_shares ::
  "(string \<Rightarrow> string) \<Rightarrow> (string \<Rightarrow> error + string) \<Rightarrow> int \<Rightarrow> AccountingCrawler
     \<Rightarrow> string list list \<Rightarrow> ((string \<times> int) \<times> (int \<times> int)) list
     \<Rightarrow> error option \<times> AccountingCrawler \<times> string list list" where
  "examine_shares si_b2a si_a2b start_slice self sharesets [] = (None, self, sharesets)"
| "examine_shares si_b2a si_a2b start_slice self sharesets
     (((si_s, shnum), (used_space, sharetype)) # items) =
     (case py_position (length sharesets) sharetype of
        None \<Rightarrow> (Some IndexError, self, sharesets)
      | Some i \<Rightarrow>
          (let sharesets' = sharesets[i := List.insert si_s (sharesets ! i)]
           in case si_a2b si_s of
                Inl e \<Rightarrow> (Some e, self, sharesets')
              | Inr si \<Rightarrow>
                  (let self1 = fold (\<lambda>age c. add_lease_age_to_histogram c age)
                         (get_lease_ages si_b2a (c_leasedb self) si shnum start_slice) self;
                       rec1 = increment (c_space_recovered self1) ''examined-shares'' 1;
                       rec2 = increment rec1 ''examined-sharebytes'' used_space
                   in case map_of SHARETYPES sharetype of
                        None \<Rightarrow> (Some KeyError, self1\<lparr>c_space_recovered := rec2\<rparr>, sharesets')
                      | Some name \<Rightarrow>
                          (let rec3 = increment rec2 (''examined-shares-'' @ name) 1;
                               rec4 = increment rec3 (''examined-sharebytes-'' @ name) used_space
                           in examine_shares si_b2a si_a2b start_slice
                                (self1\<lparr>c_space_recovered := rec4\<rparr>) sharesets' items))))"

text \<open>
  The loop over \<^verbatim>\<open>new_shares\<close>. \<open>get_used_space\<close> gives the size of the share file,
  named by the prefix directory, the bucket and the share number. The share is added under
  \<^verbatim>\<open>si_a2b(si_s)\<close>; the starter lease is added under \<^verbatim>\<open>si_s\<close> itself, as the source
  does. An exception of either call leaves the loop.
\<close>

fun add_new_shares ::
  "(string \<Rightarrow> string) \<Rightarrow> (string \<Rightarrow> error + string) \<Rightarrow> (string \<Rightarrow> string \<Rightarrow> int \<Rightarrow> int) \<Rightarrow> int
     \<Rightarrow> string \<Rightarrow> LeaseDB \<Rightarrow> (string \<times> int) list \<Rightarrow> error option \<times> LeaseDB" where
  "add_new_shares si_b2a si_a2b get_used_space now prefixdir db [] = (None, db)"
| "add_new_shares si_b2a si_a2b get_used_space now prefixdir db ((si_s, shnum) # new_shares) =
     (let used_space = get_used_space prefixdir si_s shnum;
          sharetype = SHARETYPE_UNKNOWN
      in case si_a2b si_s of
           Inl e \<Rightarrow> (Some e, db)
         | Inr si \<Rightarrow>
             (case add_new_share si_b2a db si shnum used_space sharetype of
                (Some e, db1) \<Rightarrow> (Some e, db1)
              | (None, db1) \<Rightarrow>
                  (case add_starter_lease si_b2a now db1 si_s shnum of
                     (Some e, db2) \<Rightarrow> (Some e, db2)
                   | (None, db2) \<Rightarrow>
                       add_new_shares si_b2a si_a2b get_used_space now prefixdir db2
                         new_shares)))"

text \<open>
  The loop over \<^verbatim>\<open>deleted_shares\<close>. Its elements are the pairs \<^verbatim>\<open>(si_s, shnum)\<close>;
  the loop header \<^verbatim>\<open>for (si_s, shnum, sharetype) in deleted_shares\<close> unpacks each
  into three names, which raises \<^verbatim>\<open>ValueError\<close> on a pair.
\<close>

definition unpack3 :: "string \<times> int \<Rightarrow> error + (string \<times> int \<times> int)" where
  "unpack3 shareid = Inl ValueError"

fun remove_deleted_shares ::
  "(string \<Rightarrow> string) \<Rightarrow> (string \<Rightarrow> error + string) \<Rightarrow> LeaseDB \<Rightarrow> (string \<times> int) list
     \<Rightarrow> error option \<times> LeaseDB" where
  "remove_deleted_shares si_b2a si_a2b db [] = (None, db)"
| "remove_deleted_shares si_b2a si_a2b db (shareid # deleted_shares) =
     (case unpack3 shareid of
        Inl e \<Rightarrow> (Some e, db)
      | Inr (si_s, shnum, sharetype) \<Rightarrow>
          (case si_a2b si_s of
             Inl e \<Rightarrow> (Some e, db)
           | Inr si \<Rightarrow>
               (case remove_deleted_share si_b2a db si shnum of
                  (Some e, db') \<Rightarrow> (Some e, db')
                | (None, db') \<Rightarrow> remove_deleted_shares si_b2a si_a2b db' deleted_shares)))"

text \<open>
  \<^verbatim>\<open>process_prefixdir\<close>. \<open>now\<close> is the clock reading that \<^verbatim>\<open>add_starter_lease\<close>
  takes. The argument \<^verbatim>\<open>cycle\<close> is not used by the source either.
\<close>

definition process_prefixdir ::
  "(string \<Rightarrow> string) \<Rightarrow> (string \<Rightarrow> error + string) \<Rightarrow> (string \<Rightarrow> string \<Rightarrow> string list)
     \<Rightarrow> (string \<Rightarrow> string \<Rightarrow> int \<Rightarrow> int) \<Rightarrow> int
     \<Rightarrow> AccountingCrawler \<Rightarrow> int \<Rightarrow> string \<Rightarrow> string \<Rightarrow> string list \<Rightarrow> int
     \<Rightarrow> error option \<times> AccountingCrawler" where
  "process_prefixdir si_b2a si_a2b listdir get_used_space now
       self cycle prefix prefixdir buckets start_slice =
     (let disk_shares = disk_shares_of listdir prefixdir buckets;
          db_sharemap = get_shares_for_prefix (c_leasedb self) prefix;
          db_shares = remdups (map fst db_sharemap)
      in case examine_shares si_b2a si_a2b start_slice self
                (replicate (length SHARETYPES) []) db_sharemap of
           (Some e, self1, sharesets) \<Rightarrow> (Some e, self1)
         | (None, self1, sharesets) \<Rightarrow>
             (let rec1 = increment (c_space_recovered self1) ''examined-buckets''
                           (int (sum_list (map length sharesets)));
                  rec2 = fold (\<lambda>(st, name) r.
                           increment r (''examined-buckets-'' @ name)
                             (int (length (sharesets ! nat st))))
                           SHARETYPES rec1;
                  self2 = self1\<lparr>c_space_recovered := rec2\<rparr>;
                  new_shares = filter (\<lambda>shareid. shareid \<notin> set db_shares) disk_shares
              in case add_new_shares si_b2a si_a2b get_used_space now prefixdir
                        (c_leasedb self2) new_shares of
                   (Some e, db1) \<Rightarrow> (Some e, self2\<lparr>c_leasedb := db1\<rparr>)
                 | (None, db1) \<Rightarrow>
                     (let deleted_shares =
                            filter (\<lambda>shareid. shareid \<notin> set disk_shares) db_shares
                      in case remove_deleted_shares si_b2a si_a2b db1 deleted_shares of
                           (Some e, db2) \<Rightarrow> (Some e, self2\<lparr>c_leasedb := db2\<rparr>)
                         | (None, db2) \<Rightarrow>
                             (None, self2\<lparr>c_leasedb := commit db2 False\<rparr>))))"

section \<open>The base-32 rendering of storage indices\<close>

text \<open>
  Modelled from the spec: \<^verbatim>\<open>si_b2a\<close> and \<^verbatim>\<open>si_a2b\<close> of
  \<^verbatim>\<open>allmydata.storage.common\<close> are missing from the sources. The spec says that the
  16 bytes of a storage index are rendered as a base-32 string of 26 characters. This is
  base 32 over the lower-case alphabet \<open>a\<close> to \<open>z\<close>, \<open>2\<close> to \<open>7\<close>, without padding,
  most significant bit first. The functions of the database and of the crawler take their
  codec as an argument; this instance serves the concrete inputs below.
\<close>

definition base32_chars :: string where
  "base32_chars = ''abcdefghijklmnopqrstuvwxyz234567''"

text \<open>The bits of a byte and of a number below 32, most significant first.\<close>

fun byte_bits :: "char \<Rightarrow> bool list" where
  "byte_bits (Char b0 b1 b2 b3 b4 b5 b6 b7) = [b7, b6, b5, b4, b3, b2, b1, b0]"

definition nat_of_bits :: "bool list \<Rightarrow> nat" where
  "nat_of_bits bs = foldl (\<lambda>a b. 2 * a + (if b then 1 else 0)) 0 bs"

definition bits5 :: "nat \<Rightarrow> bool list" where
  "bits5 n = [odd (n div 16), odd (n div 8), odd (n div 4), odd (n div 2), odd n]"

fun groups5 :: "bool list \<Rightarrow> bool list list" where
  "groups5 (a # b # c # d # e # bs) = [a, b, c, d, e] # groups5 bs"
| "groups5 [] = []"
| "groups5 bs = [take 5 (bs @ replicate 5 False)]"

fun bytes_of_bits :: "bool list \<Rightarrow> string" where
  "bytes_of_bits (b7 # b6 # b5 # b4 # b3 # b2 # b1 # b0 # bs) =
     Char b0 b1 b2 b3 b4 b5 b6 b7 # bytes_of_bits bs"
| "bytes_of_bits bs = []"

definition base32_b2a :: "string \<Rightarrow> string" where
  "base32_b2a os =
     map (\<lambda>g. base32_chars ! nat_of_bits g) (groups5 (concat (map byte_bits os)))"

definition base32_a2b :: "string \<Rightarrow> error + string" where
  "base32_a2b cs =
     (if list_all (\<lambda>c. c \<in> set base32_chars) cs
      then Inr (bytes_of_bits (concat (map (\<lambda>c.
                  bits5 (length (takeWhile (\<lambda>x. x \<noteq> c) base32_chars))) cs)))
      else Inl AssertionError)"

section \<open>Calls on a LeaseDB and observations of its tables\<close>

text \<open>
  A call of one of the methods of \<^verbatim>\<open>LeaseDB\<close> that write, with its arguments, and
  its effect. A caller that catches the exception goes on with the object as the call left
  it, so a sequence of calls threads the object through all of them.
\<close>

datatype 'e call =
    Add_new_share string int int int
  | Add_starter_lease int string int
  | Mark_share_as_stable string int int "string option"
  | Mark_share_as_going string int
  | Remove_deleted_share string int
  | Change_share_space string int int
  | Add_or_renew_leases string "int option" int int int
  | Remove_expired_leases ExpirationPolicy
  | Add_history_entry int 'e
  | Commit bool

fun call_method ::
  "(string \<Rightarrow> string) \<Rightarrow> ('e \<Rightarrow> string) \<Rightarrow> LeaseDB \<Rightarrow> 'e call \<Rightarrow> error option \<times> LeaseDB" where
  "call_method si_b2a dumps db (Add_new_share si shnum used_space sharetype) =
     add_new_share si_b2a db si shnum used_space sharetype"
| "call_method si_b2a dumps db (Add_starter_lease now si shnum) =
     add_starter_lease si_b2a now db si shnum"
| "call_method si_b2a dumps db (Mark_share_as_stable si shnum used_space backend_key) =
     mark_share_as_stable si_b2a db si shnum used_space backend_key"
| "call_method si_b2a dumps db (Mark_share_as_going si shnum) =
     mark_share_as_going si_b2a db si shnum"
| "call_method si_b2a dumps db (Remove_deleted_share si shnum) =
     remove_deleted_share si_b2a db si shnum"
| "call_method si_b2a dumps db (Change_share_space si shnum used_space) =
     change_share_space si_b2a db si shnum used_space"
| "call_method si_b2a dumps db (Add_or_renew_leases si shnum ownerid renewal expiration) =
     add_or_renew_leases si_b2a db si shnum ownerid renewal expiration"
| "call_method si_b2a dumps db (Remove_expired_leases policy) =
     remove_expired_leases db policy"
| "call_method si_b2a dumps db (Add_history_entry cycle entry) =
     add_history_entry dumps db cycle entry"
| "call_method si_b2a dumps db (Commit always) = (None, commit db always)"

definition call_methods ::
  "(string \<Rightarrow> string) \<Rightarrow> ('e \<Rightarrow> string) \<Rightarrow> LeaseDB \<Rightarrow> 'e call list \<Rightarrow> LeaseDB" where
  "call_methods si_b2a dumps db cs = foldl (\<lambda>d c. snd (call_method si_b2a dumps d c)) db cs"

text \<open>
  The state of the share row with the given key, if the table has one, and the
  \<^verbatim>\<open>PRIMARY KEY (`storage_index`, `shnum`)\<close> constraint of the table.
\<close>

definition share_state :: "LeaseDB \<Rightarrow> string \<Rightarrow> int \<Rightarrow> int option" where
  "share_state db si_s shnum = map_option s_state (find (share_is si_s shnum) (shares db))"

definition shares_primary_key :: "LeaseDB \<Rightarrow> bool" where
  "shares_primary_key db = distinct (map (\<lambda>s. (s_storage_index s, s_shnum s)) (shares db))"

section \<open>Concrete databases, disks and policies\<close>

text \<open>
  The storage index of sixteen zero bytes and its rendering, the 26 characters \<open>a\<close>.
  History entries are strings that are JSON texts already, so \<^verbatim>\<open>dumps\<close> and
  \<^verbatim>\<open>loads\<close> are \<open>\<lambda>e. e\<close> on them.
\<close>

definition example_si :: string where
  "example_si = replicate 16 (CHR 0x00)"

definition example_si_s :: string where
  "example_si_s = ''aaaaaaaaaaaaaaaaaaaaaaaaaa''"

text \<open>
  A new database after one share was added, marked stable and leased by the anonymous
  account from 1000 to 2000, and the transaction was committed.
\<close>

definition stored_share_db :: "bool \<Rightarrow> LeaseDB" where
  "stored_share_db fk =
     call_methods base32_b2a (\<lambda>e :: string. e) (LeaseDB_init fk)
       [Add_new_share example_si 0 1000 SHARETYPE_IMMUTABLE,
        Mark_share_as_stable example_si 0 1000 None,
        Add_or_renew_leases example_si (Some 0) ANONYMOUS_ACCOUNTID 1000 2000,
        Commit False]"

text \<open>Share 0 is stable, share 1 is going, share 2 is coming; there is no share 3.\<close>

definition lifecycle_db :: LeaseDB where
  "lifecycle_db =
     call_methods base32_b2a (\<lambda>e :: string. e) (LeaseDB_init True)
       [Add_new_share example_si 0 1000 SHARETYPE_IMMUTABLE,
        Mark_share_as_stable example_si 0 1000 None,
        Add_new_share example_si 1 1000 SHARETYPE_IMMUTABLE,
        Mark_share_as_stable example_si 1 1000 None,
        Mark_share_as_going example_si 1,
        Add_new_share example_si 2 1000 SHARETYPE_MUTABLE]"

text \<open>One share that received a starter lease at 5000 and another at 6000.\<close>

definition starter_twice_db :: LeaseDB where
  "starter_twice_db =
     call_methods base32_b2a (\<lambda>e :: string. e) (LeaseDB_init True)
       [Add_new_share example_si 0 1000 SHARETYPE_UNKNOWN,
        Add_starter_lease 5000 example_si 0,
        Add_starter_lease 6000 example_si 0]"

text \<open>
  A new database whose attribute \<^verbatim>\<open>retained_history_entries\<close> was set to \<open>R\<close>, after
  the history entries of the given cycles were added in order.
\<close>

definition history_db :: "int \<Rightarrow> int list \<Rightarrow> LeaseDB" where
  "history_db R cycles =
     call_methods base32_b2a (\<lambda>e :: string. e)
       ((LeaseDB_init False)\<lparr>retained_history_entries := R\<rparr>)
       (map (\<lambda>c. Add_history_entry c ''{}'') cycles)"

text \<open>
  A crawler on a given database with empty statistics; a prefix directory whose bucket
  \<open>example_si_s\<close> holds the one file \<^verbatim>\<open>0\<close> of 1000 bytes; and an empty one.
\<close>

definition crawler_on :: "LeaseDB \<Rightarrow> AccountingCrawler" where
  "crawler_on db = \<lparr>c_space_recovered = [], c_lease_age_histogram = [], c_leasedb = db\<rparr>"

definition one_file_listdir :: "string \<Rightarrow> string \<Rightarrow> string list" where
  "one_file_listdir prefixdir si_s = (if si_s = example_si_s then [''0''] else [])"

definition one_file_used_space :: "string \<Rightarrow> string \<Rightarrow> int \<Rightarrow> int" where
  "one_file_used_space prefixdir si_s shnum = 1000"

definition empty_listdir :: "string \<Rightarrow> string \<Rightarrow> string list" where
  "empty_listdir prefixdir si_s = []"

text \<open>
  The database with the one history entry of cycle 1, after the attribute
  \<^verbatim>\<open>retained_history_entries\<close> was set to 0.
\<close>

definition retain_none_db :: LeaseDB where
  "retain_none_db = (history_db 10 [1])\<lparr>retained_history_entries := 0\<rparr>"

text \<open>The policy of the spec's fourth scenario: enabled, with the cutoff date 500.\<close>

definition cutoff_500_policy :: ExpirationPolicy where
  "cutoff_500_policy = \<lparr>p_enabled = True, p_mode = ''cutoff-date'',
                         p_override_lease_duration = None, p_cutoff_date = Some 500\<rparr>"

text \<open>The policy of the spec's third scenario: enabled, by age, leases last 100 seconds.\<close>

definition age_100_policy :: ExpirationPolicy where
  "age_100_policy = \<lparr>p_enabled = True, p_mode = ''age'',
                      p_override_lease_duration = Some 100, p_cutoff_date = None\<rparr>"

section \<open>Properties of the expiration policy\<close>

lemmas leasedb_constants =
  SHARETYPE_IMMUTABLE_def SHARETYPE_MUTABLE_def SHARETYPE_CORRUPTED_def SHARETYPE_UNKNOWN_def
  SHARETYPES_def STATE_COMING_def STATE_STABLE_def STATE_GOING_def DAY_def MONTH_def
  ANONYMOUS_ACCOUNTID_def STARTER_LEASE_ACCOUNTID_def STARTER_LEASE_DURATION_def

lemma init_fields:
  assumes "ExpirationPolicy_init en md old cd = Inr p"
  shows "p_enabled p = en" and "p_mode p = md"
    and "p_override_lease_duration p = old" and "p_cutoff_date p = cd"
  using assms by (auto simp: ExpirationPolicy_init_def split: if_splits)

text \<open>
  In the mode \<open>''cutoff-date''\<close> an enabled policy compares the clock with the cutoff
  date and reads neither time of the lease.
\<close>

lemma cutoff_date_mode_reads_clock:
  assumes "ExpirationPolicy_init True ''cutoff-date'' old (Some c) = Inr p"
  shows "should_expire p now renewal_time expiration_time = (c \<le> now)"
  using init_fields [OF assms] by (simp add: should_expire_def)

lemma cutoff_500_policy_constructed:
  "ExpirationPolicy_init True ''cutoff-date'' None (Some 500) = Inr cutoff_500_policy"
  by (simp add: ExpirationPolicy_init_def cutoff_500_policy_def)

text \<open>
  Claim C2, at inputs where the code breaks it. The claim, like
  \<^verbatim>\<open>describe_expiration\<close>, has the leases expire that were renewed before the cutoff
  date: with the cutoff date 500, the lease renewed at 499 and not the lease renewed at
  501. \<open>should_expire\<close> says that the lease renewed at 501 should expire when the clock
  is at 1000, and that the lease renewed at 499 should not when the clock is at 400.
\<close>

theorem C2_cutoff_date_ignores_renewal_time:
  "should_expire cutoff_500_policy 1000 501 2000 \<and> \<not> ((501::int) < 500)
   \<and> \<not> should_expire cutoff_500_policy 400 499 2000 \<and> (499::int) < 500"
  by (simp add: should_expire_def cutoff_500_policy_def)

text \<open>
  Claim C8. \<open>should_expire\<close> is a function of the policy and its three arguments: it
  returns false for a disabled policy; for an enabled policy in mode \<open>''age''\<close> without
  an override it returns true exactly when \<open>now \<ge> expiration_time\<close>; with the override
  \<open>d\<close> it returns true exactly when \<open>now \<ge> renewal_time + d\<close>.
\<close>

theorem C8_should_expire_age_mode:
  "(\<not> p_enabled p1 \<longrightarrow> should_expire p1 now renewal_time expiration_time = False)
   \<and> (p_enabled p2 \<and> p_mode p2 = ''age'' \<and> p_override_lease_duration p2 = None
        \<longrightarrow> should_expire p2 now renewal_time expiration_time = (expiration_time \<le> now))
   \<and> (p_enabled p3 \<and> p_mode p3 = ''age'' \<and> p_override_lease_duration p3 = Some d
        \<longrightarrow> should_expire p3 now renewal_time expiration_time = (renewal_time + d \<le> now))"
  by (simp add: should_expire_def)

theorem C8_should_expire_age_mode_witness:
  "\<not> p_enabled \<lparr>p_enabled = False, p_mode = ''age'',
        p_override_lease_duration = None, p_cutoff_date = None\<rparr>
   \<and> should_expire \<lparr>p_enabled = False, p_mode = ''age'',
        p_override_lease_duration = None, p_cutoff_date = None\<rparr> 1101 1000 2000 = False
   \<and> p_enabled \<lparr>p_enabled = True, p_mode = ''age'',
        p_override_lease_duration = None, p_cutoff_date = None\<rparr>
   \<and> should_expire \<lparr>p_enabled = True, p_mode = ''age'',
        p_override_lease_duration = None, p_cutoff_date = None\<rparr> 1101 1000 2000
       = ((2000::int) \<le> 1101)
   \<and> p_enabled \<lparr>p_enabled = True, p_mode = ''age'',
        p_override_lease_duration = Some 100, p_cutoff_date = None\<rparr>
   \<and> should_expire \<lparr>p_enabled = True, p_mode = ''age'',
        p_override_lease_duration = Some 100, p_cutoff_date = None\<rparr> 1101 1000 2000
       = ((1000::int) + 100 \<le> 1101)"
  using C8_should_expire_age_mode
    [of "\<lparr>p_enabled = False, p_mode = ''age'',
          p_override_lease_duration = None, p_cutoff_date = None\<rparr>"
        1101 1000 2000
        "\<lparr>p_enabled = True, p_mode = ''age'',
          p_override_lease_duration = None, p_cutoff_date = None\<rparr>"
        "\<lparr>p_enabled = True, p_mode = ''age'',
          p_override_lease_duration = Some 100, p_cutoff_date = None\<rparr>"
        100]
  by simp

section \<open>The concrete databases, evaluated\<close>

lemma example_b2a: "base32_b2a example_si = example_si_s"
  by code_simp

lemma example_a2b: "base32_a2b example_si_s = Inr example_si"
  by code_simp

lemma example_b2a_twice:
  "base32_b2a example_si_s = ''mfqwcylbmfqwcylbmfqwcylbmfqwcylbmfqwcylbme''"
  by code_simp

lemma lifecycle_db_rows:
  "shares lifecycle_db =
     [\<lparr>s_storage_index = example_si_s, s_shnum = 0, s_prefix = ''aa'', s_backend_key = None,
       s_used_space = 1000, s_sharetype = SHARETYPE_IMMUTABLE, s_state = STATE_STABLE\<rparr>,
      \<lparr>s_storage_index = example_si_s, s_shnum = 1, s_prefix = ''aa'', s_backend_key = None,
       s_used_space = 1000, s_sharetype = SHARETYPE_IMMUTABLE, s_state = STATE_GOING\<rparr>,
      \<lparr>s_storage_index = example_si_s, s_shnum = 2, s_prefix = ''aa'', s_backend_key = None,
       s_used_space = 1000, s_sharetype = SHARETYPE_MUTABLE, s_state = STATE_COMING\<rparr>]"
  by code_simp

lemma stored_share_db_shares:
  "shares (stored_share_db False) =
     [\<lparr>s_storage_index = example_si_s, s_shnum = 0, s_prefix = ''aa'', s_backend_key = None,
       s_used_space = 1000, s_sharetype = SHARETYPE_IMMUTABLE, s_state = STATE_STABLE\<rparr>]"
  by code_simp

lemma stored_share_db_leases:
  "leases (stored_share_db False) =
     [\<lparr>l_id = 1, l_storage_index = example_si_s, l_shnum = 0,
       l_account_id = ANONYMOUS_ACCOUNTID, l_renewal_time = 1000, l_expiration_time = 2000\<rparr>]"
  by code_simp

lemma stored_share_db_foreign_keys: "\<not> foreign_keys (stored_share_db False)"
  by code_simp

section \<open>Lists of rows\<close>

lemma find_as_filter:
  "find P xs = (case filter P xs of [] \<Rightarrow> None | x # _ \<Rightarrow> Some x)"
  by (induction xs) auto

lemma find_map_same_key:
  assumes "\<And>s. P (f s) = P s"
  shows "find P (map f xs) = map_option f (find P xs)"
  using assms by (induction xs) auto

lemma find_append_None:
  "find P xs = None \<Longrightarrow> find P (xs @ zs) = find P zs"
  by (induction xs) (auto split: if_splits)

lemma find_append_Some: "find P xs = Some y \<Longrightarrow> find P (xs @ zs) = Some y"
  by (induction xs) (auto split: if_splits)

lemma find_filter_keeps:
  assumes "\<And>x. P x \<Longrightarrow> Q x"
  shows "find P (filter Q xs) = find P xs"
  using assms by (induction xs) auto

lemma find_filter_drops:
  assumes "\<And>x. P x \<Longrightarrow> \<not> Q x"
  shows "find P (filter Q xs) = None"
  using assms by (induction xs) auto


lemma sorted_distinct_filter_ge:
  fixes ys :: "int list"
  assumes "sorted ys" and "distinct ys" and "k < length ys"
  shows "filter (\<lambda>c. \<not> c < ys ! k) ys = drop k ys"
proof -
  have strict: "sorted_wrt (<) ys" using assms by (simp add: strict_sorted_iff)
  have low: "filter (\<lambda>c. \<not> c < ys ! k) (take k ys) = []"
  proof -
    have "\<And>c. c \<in> set (take k ys) \<Longrightarrow> c < ys ! k"
    proof -
      fix c assume "c \<in> set (take k ys)"
      then obtain i where "i < k" "c = ys ! i"
        using assms(3) by (auto simp: in_set_conv_nth)
      thus "c < ys ! k" using strict assms(3) by (simp add: sorted_wrt_nth_less)
    qed
    thus ?thesis by (simp add: filter_empty_conv)
  qed
  have high: "filter (\<lambda>c. \<not> c < ys ! k) (drop k ys) = drop k ys"
  proof -
    have "\<And>c. c \<in> set (drop k ys) \<Longrightarrow> \<not> c < ys ! k"
    proof -
      fix c assume "c \<in> set (drop k ys)"
      then obtain i where "k \<le> i" "i < length ys" "c = ys ! i"
        using assms(3) by (auto simp: in_set_conv_nth) (metis add.commute le_add2 less_diff_conv)
      thus "\<not> c < ys ! k" using assms(1) by (simp add: sorted_nth_mono not_less)
    qed
    thus ?thesis by (simp add: filter_id_conv)
  qed
  have "filter (\<lambda>c. \<not> c < ys ! k) ys
          = filter (\<lambda>c. \<not> c < ys ! k) (take k ys @ drop k ys)" by simp
  also have "\<dots> = drop k ys" using low high by (simp only: filter_append append_Nil)
  finally show ?thesis .
qed

lemma length_filter_fst:
  "length (filter (\<lambda>(c, j). P c) h) = length (filter P (map fst h))"
  by (induction h) auto

section \<open>The lifecycle of a share row\<close>

lemma states_distinct:
  "STATE_COMING \<noteq> STATE_STABLE" "STATE_STABLE \<noteq> STATE_GOING" "STATE_COMING \<noteq> STATE_GOING"
  "STATE_STABLE \<noteq> STATE_COMING" "STATE_GOING \<noteq> STATE_STABLE" "STATE_GOING \<noteq> STATE_COMING"
  by (simp_all add: leasedb_constants)

lemma find_filter_other:
  "find (share_is a b) (filter (\<lambda>s. \<not> share_is c d s) xs)
     = (if a = c \<and> b = d then None else find (share_is a b) xs)"
proof (cases "a = c \<and> b = d")
  case True
  thus ?thesis by (simp add: find_filter_drops)
next
  case False
  hence "\<And>x. share_is a b x \<Longrightarrow> \<not> share_is c d x" by (auto simp: share_is_def)
  hence "find (share_is a b) (filter (\<lambda>s. \<not> share_is c d s) xs) = find (share_is a b) xs"
    by (rule find_filter_keeps)
  thus ?thesis using False by auto
qed

lemma insert_lease_shares:
  "shares (snd (insert_lease db si_s shnum a r e)) = shares db"
  by (simp add: insert_lease_def split: option.splits)

lemma renew_rows_shares:
  "shares (snd (renew_rows db si_s shnum a r e rows)) = shares db"
proof (induction rows arbitrary: db)
  case Nil
  show ?case by simp
next
  case (Cons x rows)
  obtain fs fn where x: "x = (fs, fn)" by (cases x)
  show ?case
  proof (cases "si_s = fs")
    case False
    thus ?thesis unfolding x by simp
  next
    case True
    hence x': "x = (si_s, fn)" using x by simp
    show ?thesis
    proof (cases "find (lease_key si_s fn a) (leases db)")
      case (Some l)
      thus ?thesis unfolding x' by (simp add: Cons.IH)
    next
      case None
      obtain y db' where il: "insert_lease db si_s shnum a r e = (y, db')"
        by (cases "insert_lease db si_s shnum a r e")
      have sh: "shares db' = shares db"
        using insert_lease_shares [of db si_s shnum a r e] il by simp
      show ?thesis unfolding x' using None il sh
        by (cases y) (simp_all add: Cons.IH)
    qed
  qed
qed

lemma add_or_renew_leases_shares:
  "shares (snd (add_or_renew_leases si_b2a db si shnum a r e)) = shares db"
  by (simp add: add_or_renew_leases_def Let_def renew_rows_shares split: option.splits)

lemma add_history_entry_shares:
  "shares (snd (add_history_entry dumps db cycle entry)) = shares db"
  by (auto simp: add_history_entry_def Let_def commit_def split: sum.splits if_splits)

lemma add_starter_lease_shares:
  "shares (snd (add_starter_lease si_b2a now db si shnum)) = shares db"
  by (auto simp: add_starter_lease_def insert_lease_def Let_def)

lemma share_state_map:
  assumes "shares db' = map f (shares db)"
    and "\<And>s. share_is a b (f s) = share_is a b s"
  shows "share_state db' a b
           = map_option (\<lambda>s. s_state (f s)) (find (share_is a b) (shares db))"
  using find_map_same_key [of "share_is a b" f "shares db", OF assms(2)] assms(1)
  by (simp add: share_state_def option.map_comp o_def)

lemma share_state_call:
  "share_state (snd (call_method si_b2a dumps db c)) k_si k_n
     \<in> {None, share_state db k_si k_n} \<or>
   (share_state db k_si k_n = None \<and>
    share_state (snd (call_method si_b2a dumps db c)) k_si k_n = Some STATE_COMING) \<or>
   (share_state db k_si k_n \<noteq> None \<and> share_state db k_si k_n \<noteq> Some STATE_GOING \<and>
    share_state (snd (call_method si_b2a dumps db c)) k_si k_n = Some STATE_STABLE) \<or>
   (share_state db k_si k_n \<noteq> None \<and> share_state db k_si k_n \<noteq> Some STATE_COMING \<and>
    share_state (snd (call_method si_b2a dumps db c)) k_si k_n = Some STATE_GOING)"
proof (cases c)
  case (Add_new_share si shnum used_space sharetype)
  show ?thesis
  proof (cases "find (share_is k_si k_n) (shares db)")
    case None
    thus ?thesis unfolding Add_new_share
      by (auto simp: share_state_def add_new_share_def Let_def find_append_None)
  next
    case (Some s)
    thus ?thesis unfolding Add_new_share
      by (simp add: share_state_def add_new_share_def Let_def find_append_Some)
  qed
next
  case (Add_starter_lease now si shnum)
  thus ?thesis by (simp add: share_state_def add_starter_lease_shares)
next
  case (Mark_share_as_stable si shnum used_space backend_key)
  let ?f = "\<lambda>s. if share_is (si_b2a si) shnum s \<and> s_state s \<noteq> STATE_GOING
                then s\<lparr>s_state := STATE_STABLE, s_used_space := used_space,
                       s_backend_key := backend_key\<rparr>
                else s"
  have "shares (snd (call_method si_b2a dumps db c)) = map ?f (shares db)"
    unfolding Mark_share_as_stable by (simp add: mark_share_as_stable_def Let_def)
  moreover have "\<And>s. share_is k_si k_n (?f s) = share_is k_si k_n s"
    by (simp add: share_is_def)
  ultimately have "share_state (snd (call_method si_b2a dumps db c)) k_si k_n
      = map_option (\<lambda>s. s_state (?f s)) (find (share_is k_si k_n) (shares db))"
    by (rule share_state_map)
  thus ?thesis
    by (cases "find (share_is k_si k_n) (shares db)")
       (auto simp: share_state_def split: if_splits)
next
  case (Mark_share_as_going si shnum)
  let ?f = "\<lambda>s. if share_is (si_b2a si) shnum s \<and> s_state s \<noteq> STATE_COMING
                then s\<lparr>s_state := STATE_GOING\<rparr> else s"
  have "shares (snd (call_method si_b2a dumps db c)) = map ?f (shares db)"
    unfolding Mark_share_as_going by (simp add: mark_share_as_going_def Let_def)
  moreover have "\<And>s. share_is k_si k_n (?f s) = share_is k_si k_n s"
    by (simp add: share_is_def)
  ultimately have "share_state (snd (call_method si_b2a dumps db c)) k_si k_n
      = map_option (\<lambda>s. s_state (?f s)) (find (share_is k_si k_n) (shares db))"
    by (rule share_state_map)
  thus ?thesis
    by (cases "find (share_is k_si k_n) (shares db)")
       (auto simp: share_state_def split: if_splits)
next
  case (Remove_deleted_share si shnum)
  thus ?thesis
    by (auto simp: share_state_def remove_deleted_share_def Let_def find_filter_other)
next
  case (Change_share_space si shnum used_space)
  let ?f = "\<lambda>s. if share_is (si_b2a si) shnum s then s\<lparr>s_used_space := used_space\<rparr> else s"
  have "shares (snd (call_method si_b2a dumps db c)) = map ?f (shares db)"
    unfolding Change_share_space by (simp add: change_share_space_def Let_def)
  moreover have "\<And>s. share_is k_si k_n (?f s) = share_is k_si k_n s"
    by (simp add: share_is_def)
  ultimately have "share_state (snd (call_method si_b2a dumps db c)) k_si k_n
      = map_option (\<lambda>s. s_state (?f s)) (find (share_is k_si k_n) (shares db))"
    by (rule share_state_map)
  thus ?thesis
    by (cases "find (share_is k_si k_n) (shares db)")
       (auto simp: share_state_def split: if_splits)
next
  case (Add_or_renew_leases si shnum ownerid renewal expiration)
  thus ?thesis by (simp add: share_state_def add_or_renew_leases_shares)
next
  case (Remove_expired_leases policy)
  thus ?thesis by (simp add: share_state_def remove_expired_leases_def)
next
  case (Add_history_entry cycle entry)
  thus ?thesis by (simp add: share_state_def add_history_entry_shares)
next
  case (Commit always)
  thus ?thesis by (simp add: share_state_def commit_def)
qed





lemma shares_primary_key_call:
  assumes "shares_primary_key db"
  shows "shares_primary_key (snd (call_method si_b2a dumps db c))"
proof (cases c)
  case (Add_new_share si shnum used_space sharetype)
  thus ?thesis using assms
    by (auto simp: shares_primary_key_def add_new_share_def Let_def list_ex_iff share_is_def)
next
  case (Add_starter_lease now si shnum)
  thus ?thesis using assms by (simp add: shares_primary_key_def add_starter_lease_shares)
next
  case (Mark_share_as_stable si shnum used_space backend_key)
  thus ?thesis using assms
    by (simp add: shares_primary_key_def mark_share_as_stable_def Let_def o_def if_distrib
        cong: if_cong)
next
  case (Mark_share_as_going si shnum)
  thus ?thesis using assms
    by (simp add: shares_primary_key_def mark_share_as_going_def Let_def o_def if_distrib
        cong: if_cong)
next
  case (Remove_deleted_share si shnum)
  thus ?thesis using assms
    by (simp add: shares_primary_key_def remove_deleted_share_def Let_def distinct_map_filter)
next
  case (Change_share_space si shnum used_space)
  thus ?thesis using assms
    by (simp add: shares_primary_key_def change_share_space_def Let_def o_def if_distrib
        cong: if_cong)
next
  case (Add_or_renew_leases si shnum ownerid renewal expiration)
  thus ?thesis using assms by (simp add: shares_primary_key_def add_or_renew_leases_shares)
next
  case (Remove_expired_leases policy)
  thus ?thesis using assms by (simp add: shares_primary_key_def remove_expired_leases_def)
next
  case (Add_history_entry cycle entry)
  thus ?thesis using assms by (simp add: shares_primary_key_def add_history_entry_shares)
next
  case (Commit always)
  thus ?thesis using assms by (simp add: shares_primary_key_def commit_def)
qed

lemma shares_primary_key_reachable:
  "shares_primary_key (call_methods si_b2a dumps (LeaseDB_init fk) cs)"
proof -
  have "shares_primary_key db \<Longrightarrow> shares_primary_key (call_methods si_b2a dumps db cs)" for db
    unfolding call_methods_def
    by (induction cs arbitrary: db) (simp_all add: shares_primary_key_call)
  moreover have "shares_primary_key (LeaseDB_init fk)"
    by (simp add: shares_primary_key_def LeaseDB_init_def Let_def)
  ultimately show ?thesis by blast
qed

text \<open>
  Along a sequence of calls, a row in \<open>STATE_GOING\<close> stays in it for as long as the share
  has a row, and a row in \<open>STATE_STABLE\<close> or \<open>STATE_GOING\<close> is not in \<open>STATE_COMING\<close>
  later unless the share had no row in between: only a new row, added after
  \<^verbatim>\<open>remove_deleted_share\<close>, starts again in \<open>STATE_COMING\<close>.
\<close>

lemma call_methods_Cons:
  "call_methods si_b2a dumps db (c # cs)
     = call_methods si_b2a dumps (snd (call_method si_b2a dumps db c)) cs"
  by (simp add: call_methods_def)

lemma going_row_along_calls:
  assumes "share_state db k_si k_n = Some STATE_GOING"
    and "share_state (call_methods si_b2a dumps db cs) k_si k_n \<noteq> Some STATE_GOING"
  shows "\<exists>n \<le> length cs. share_state (call_methods si_b2a dumps db (take n cs)) k_si k_n = None"
  using assms
proof (induction cs arbitrary: db)
  case Nil
  thus ?case by (simp add: call_methods_def)
next
  case (Cons c cs)
  let ?db1 = "snd (call_method si_b2a dumps db c)"
  from share_state_call [of si_b2a dumps db c k_si k_n] Cons.prems(1)
  have "share_state ?db1 k_si k_n = None \<or> share_state ?db1 k_si k_n = Some STATE_GOING"
    by auto
  thus ?case
  proof
    assume "share_state ?db1 k_si k_n = None"
    hence "share_state (call_methods si_b2a dumps db (take 1 (c # cs))) k_si k_n = None"
      by (simp add: call_methods_def)
    thus ?thesis by (intro exI [of _ 1]) simp
  next
    assume g: "share_state ?db1 k_si k_n = Some STATE_GOING"
    from Cons.prems(2) have "share_state (call_methods si_b2a dumps ?db1 cs) k_si k_n
        \<noteq> Some STATE_GOING" by (simp add: call_methods_Cons)
    from Cons.IH [OF g this] obtain n where n: "n \<le> length cs"
      "share_state (call_methods si_b2a dumps ?db1 (take n cs)) k_si k_n = None" by blast
    hence "share_state (call_methods si_b2a dumps db (take (Suc n) (c # cs))) k_si k_n = None"
      by (simp add: call_methods_Cons)
    thus ?thesis using n(1) by (intro exI [of _ "Suc n"]) simp
  qed
qed

lemma stable_row_along_calls:
  assumes "share_state db k_si k_n = Some STATE_STABLE \<or> share_state db k_si k_n = Some STATE_GOING"
    and "share_state (call_methods si_b2a dumps db cs) k_si k_n = Some STATE_COMING"
  shows "\<exists>n \<le> length cs. share_state (call_methods si_b2a dumps db (take n cs)) k_si k_n = None"
  using assms
proof (induction cs arbitrary: db)
  case Nil
  thus ?case using states_distinct by (auto simp: call_methods_def)
next
  case (Cons c cs)
  let ?db1 = "snd (call_method si_b2a dumps db c)"
  from share_state_call [of si_b2a dumps db c k_si k_n] Cons.prems(1)
  have "share_state ?db1 k_si k_n = None \<or> share_state ?db1 k_si k_n = Some STATE_STABLE
        \<or> share_state ?db1 k_si k_n = Some STATE_GOING"
    by auto
  thus ?case
  proof (elim disjE)
    assume "share_state ?db1 k_si k_n = None"
    hence "share_state (call_methods si_b2a dumps db (take 1 (c # cs))) k_si k_n = None"
      by (simp add: call_methods_def)
    thus ?thesis by (intro exI [of _ 1]) simp
  next
    assume "share_state ?db1 k_si k_n = Some STATE_STABLE"
    hence g: "share_state ?db1 k_si k_n = Some STATE_STABLE
        \<or> share_state ?db1 k_si k_n = Some STATE_GOING" by simp
    from Cons.prems(2) have "share_state (call_methods si_b2a dumps ?db1 cs) k_si k_n
        = Some STATE_COMING" by (simp add: call_methods_Cons)
    from Cons.IH [OF g this] obtain n where n: "n \<le> length cs"
      "share_state (call_methods si_b2a dumps ?db1 (take n cs)) k_si k_n = None" by blast
    hence "share_state (call_methods si_b2a dumps db (take (Suc n) (c # cs))) k_si k_n = None"
      by (simp add: call_methods_Cons)
    thus ?thesis using n(1) by (intro exI [of _ "Suc n"]) simp
  next
    assume "share_state ?db1 k_si k_n = Some STATE_GOING"
    hence g: "share_state ?db1 k_si k_n = Some STATE_STABLE
        \<or> share_state ?db1 k_si k_n = Some STATE_GOING" by simp
    from Cons.prems(2) have "share_state (call_methods si_b2a dumps ?db1 cs) k_si k_n
        = Some STATE_COMING" by (simp add: call_methods_Cons)
    from Cons.IH [OF g this] obtain n where n: "n \<le> length cs"
      "share_state (call_methods si_b2a dumps ?db1 (take n cs)) k_si k_n = None" by blast
    hence "share_state (call_methods si_b2a dumps db (take (Suc n) (c # cs))) k_si k_n = None"
      by (simp add: call_methods_Cons)
    thus ?thesis using n(1) by (intro exI [of _ "Suc n"]) simp
  qed
qed



section \<open>Adding and renewing leases\<close>

lemma update_lease_key [simp]:
  "lease_key si_s n a (update_lease i r e l) = lease_key si_s n a l"
  by (simp add: update_lease_def lease_key_def lease_on_def)

lemma filter_key_update:
  "filter (lease_key si_s n a) (map (update_lease i r e) ls)
     = map (update_lease i r e) (filter (lease_key si_s n a) ls)"
  by (induction ls) auto

lemma share_row_found:
  assumes "filter (share_is si_s n) (shares db) = [row]"
  shows "map (\<lambda>s. (s_storage_index s, s_shnum s)) (filter (share_is si_s n) (shares db))
           = [(si_s, n)]"
proof -
  have "row \<in> set (filter (share_is si_s n) (shares db))" using assms by simp
  hence "share_is si_s n row" by simp
  thus ?thesis using assms by (simp add: share_is_def)
qed

lemma renew_existing:
  assumes "filter (share_is (si_b2a si) n) (shares db) = [row]"
    and "find (lease_key (si_b2a si) n a) (leases db) = Some l"
    and "sqlite_int n" and "sqlite_int a" and "sqlite_int r" and "sqlite_int e"
  shows "add_or_renew_leases si_b2a db si (Some n) a r e
           = (None, db\<lparr>dirty := True,
                        leases := map (update_lease (l_id l) r e) (leases db)\<rparr>)"
  using assms share_row_found [OF assms(1)]
  by (simp add: add_or_renew_leases_def Let_def)

lemma renew_absent:
  assumes "filter (share_is (si_b2a si) n) (shares db) = [row]"
    and "find (lease_key (si_b2a si) n a) (leases db) = None"
    and "\<not> foreign_keys db \<or> list_ex (\<lambda>acc. a_id acc = a) (accounts db)"
    and "sqlite_int n" and "sqlite_int a" and "sqlite_int r" and "sqlite_int e"
    and "leases_seq db + 1 < 2 ^ 63"
  shows "add_or_renew_leases si_b2a db si (Some n) a r e
           = (None, db\<lparr>dirty := True,
                 leases := leases db @
                  [\<lparr>l_id = leases_seq db + 1, l_storage_index = si_b2a si, l_shnum = n,
                    l_account_id = a, l_renewal_time = r, l_expiration_time = e\<rparr>],
                 leases_seq := leases_seq db + 1\<rparr>)"
proof -
  have ex: "list_ex (share_is (si_b2a si) n) (shares db)"
  proof -
    have "row \<in> set (filter (share_is (si_b2a si) n) (shares db))" using assms(1) by simp
    thus ?thesis by (auto simp: list_ex_iff)
  qed
  show ?thesis
    using assms ex share_row_found [OF assms(1)]
    by (auto simp: add_or_renew_leases_def Let_def insert_lease_def)
qed

text \<open>
  Claim C7, as amended. If the share \<open>(si, n)\<close> has its row, the table of leases holds at
  most one row for \<open>(si, n, a)\<close>, the account \<open>a\<close> exists or foreign keys are not
  enforced, the share number, the account and the four timestamps are integers that the
  database can store, and the ids of the leases are not used up, then two calls of \<^verbatim>\<open>add_or_renew_leases\<close> for
  \<open>(si, n, a)\<close> both return normally and leave exactly one lease row for \<open>(si, n, a)\<close>;
  it carries the timestamps of the second call, whatever their order to those of the
  first; and the second call adds no row.
\<close>

theorem C7_second_call_updates:
  assumes share: "filter (share_is (si_b2a si) n) (shares db) = [row]"
    and uniq: "length (filter (lease_key (si_b2a si) n a) (leases db)) \<le> 1"
    and acct: "\<not> foreign_keys db \<or> list_ex (\<lambda>acc. a_id acc = a) (accounts db)"
    and key: "sqlite_int n" "sqlite_int a"
    and times: "sqlite_int r1" "sqlite_int e1" "sqlite_int r2" "sqlite_int e2"
    and ids: "leases_seq db + 1 < 2 ^ 63"
    and call1: "add_or_renew_leases si_b2a db si (Some n) a r1 e1 = (x1, db1)"
    and call2: "add_or_renew_leases si_b2a db1 si (Some n) a r2 e2 = (x2, db2)"
  shows "x1 = None \<and> x2 = None
         \<and> (\<exists>l. filter (lease_key (si_b2a si) n a) (leases db2) = [l]
                \<and> l_renewal_time l = r2 \<and> l_expiration_time l = e2)
         \<and> length (leases db2) = length (leases db1)"
proof -
  let ?K = "lease_key (si_b2a si) n a"
  have first: "x1 = None \<and> shares db1 = shares db
      \<and> (\<exists>l. filter ?K (leases db1) = [l])"
  proof (cases "filter ?K (leases db)")
    case Nil
    hence "find ?K (leases db) = None" by (simp add: find_as_filter)
    from renew_absent [where si_b2a = si_b2a and si = si and r = r1 and e = e1,
        OF share this acct key times(1,2) ids] call1 Nil
    show ?thesis by (auto simp: lease_key_def lease_on_def)
  next
    case (Cons l ls)
    with uniq have one: "filter ?K (leases db) = [l]" by simp
    hence "find ?K (leases db) = Some l" by (simp add: find_as_filter)
    from renew_existing [where si_b2a = si_b2a and si = si and r = r1 and e = e1,
        OF share this key times(1,2)] call1 one
    show ?thesis by (auto simp: filter_key_update)
  qed
  then obtain l1 where l1: "filter ?K (leases db1) = [l1]" by blast
  hence found: "find ?K (leases db1) = Some l1" by (simp add: find_as_filter)
  have share1: "filter (share_is (si_b2a si) n) (shares db1) = [row]"
    using first share by simp
  have k1: "?K l1"
  proof -
    have "l1 \<in> set (filter ?K (leases db1))" using l1 by simp
    thus ?thesis by simp
  qed
  from renew_existing [where si_b2a = si_b2a and si = si and r = r2 and e = e2,
      OF share1 found key times(3,4)] call2
  have x2: "x2 = None"
    and db2: "leases db2 = map (update_lease (l_id l1) r2 e2) (leases db1)"
    by auto
  have "filter ?K (leases db2) = [update_lease (l_id l1) r2 e2 l1]"
    using db2 l1 by (simp add: filter_key_update)
  moreover have "l_renewal_time (update_lease (l_id l1) r2 e2 l1) = r2"
    and "l_expiration_time (update_lease (l_id l1) r2 e2 l1) = e2"
    by (simp_all add: update_lease_def)
  ultimately show ?thesis using first x2 db2 by simp
qed

theorem C7_second_call_updates_witness:
  "filter (share_is (base32_b2a example_si) 0) (shares (stored_share_db False)) =
     [\<lparr>s_storage_index = example_si_s, s_shnum = 0, s_prefix = ''aa'', s_backend_key = None,
       s_used_space = 1000, s_sharetype = SHARETYPE_IMMUTABLE, s_state = STATE_STABLE\<rparr>]
   \<and> length (filter (lease_key (base32_b2a example_si) 0 7) (leases (stored_share_db False))) \<le> 1
   \<and> \<not> foreign_keys (stored_share_db False)
   \<and> sqlite_int 0 \<and> sqlite_int 7
   \<and> sqlite_int 3000 \<and> sqlite_int 4000 \<and> sqlite_int 1000 \<and> sqlite_int 2000
   \<and> leases_seq (stored_share_db False) + 1 < 2 ^ 63
   \<and> fst (add_or_renew_leases base32_b2a (stored_share_db False) example_si (Some 0) 7 3000 4000)
       = None
   \<and> fst (add_or_renew_leases base32_b2a
         (snd (add_or_renew_leases base32_b2a (stored_share_db False) example_si (Some 0) 7
                 3000 4000))
         example_si (Some 0) 7 1000 2000) = None
   \<and> (\<exists>l. filter (lease_key (base32_b2a example_si) 0 7)
            (leases (snd (add_or_renew_leases base32_b2a
               (snd (add_or_renew_leases base32_b2a (stored_share_db False) example_si (Some 0) 7
                       3000 4000))
               example_si (Some 0) 7 1000 2000))) = [l]
          \<and> l_renewal_time l = 1000 \<and> l_expiration_time l = 2000)
   \<and> length (leases (snd (add_or_renew_leases base32_b2a
               (snd (add_or_renew_leases base32_b2a (stored_share_db False) example_si (Some 0) 7
                       3000 4000))
               example_si (Some 0) 7 1000 2000)))
       = length (leases (snd (add_or_renew_leases base32_b2a (stored_share_db False) example_si
                                (Some 0) 7 3000 4000)))"
proof -
  let ?a1 = "add_or_renew_leases base32_b2a (stored_share_db False) example_si (Some 0) 7
               3000 4000"
  let ?a2 = "add_or_renew_leases base32_b2a (snd ?a1) example_si (Some 0) 7 1000 2000"
  have h1: "filter (share_is (base32_b2a example_si) 0) (shares (stored_share_db False)) =
     [\<lparr>s_storage_index = example_si_s, s_shnum = 0, s_prefix = ''aa'', s_backend_key = None,
       s_used_space = 1000, s_sharetype = SHARETYPE_IMMUTABLE, s_state = STATE_STABLE\<rparr>]"
    by (simp add: stored_share_db_shares example_b2a share_is_def)
  have h2: "length (filter (lease_key (base32_b2a example_si) 0 7)
                      (leases (stored_share_db False))) \<le> 1"
    by (simp add: stored_share_db_leases)
  have h3: "\<not> foreign_keys (stored_share_db False)"
    by (rule stored_share_db_foreign_keys)
  have k: "sqlite_int 0" "sqlite_int 7"
    and t: "sqlite_int 3000" "sqlite_int 4000" "sqlite_int 1000" "sqlite_int 2000"
    by (simp_all add: sqlite_int_def)
  have q: "leases_seq (stored_share_db False) + 1 < 2 ^ 63" by code_simp
  have c1: "?a1 = (fst ?a1, snd ?a1)" and c2: "?a2 = (fst ?a2, snd ?a2)" by simp_all
  from C7_second_call_updates [where si_b2a = base32_b2a and si = example_si,
      OF h1 h2 disjI1 [OF h3] k t q c1 c2] h1 h2 h3 k t q
  show ?thesis by blast
qed

text \<open>
  Claim C7 as stated fails in three ways. Where the table holds two lease rows of the same
  share and account already (the share of \<open>starter_twice_db\<close> received two starter
  leases), two calls for the starter account leave two rows, and only the first carries
  the timestamps of the second call. Where foreign keys are enforced and the account has no
  row (account 7 in \<open>lifecycle_db\<close>), the call raises \<^verbatim>\<open>IntegrityError\<close> and no lease
  row is written. Where the timestamps of the second call are \<open>2 ^ 63\<close> and
  \<open>2 ^ 63 + 1\<close>, the call raises \<^verbatim>\<open>OverflowError\<close> and the lease keeps the
  timestamps it had. Where the largest id, \<open>2 ^ 63 - 1\<close>, has been handed out, the call
  for an account without a lease raises \<^verbatim>\<open>OperationalError\<close> and adds no row.
\<close>

theorem C7_second_call_counterexample:
  "list_ex (share_is (base32_b2a example_si) 0) (shares starter_twice_db)
   \<and> fst (add_or_renew_leases base32_b2a starter_twice_db example_si (Some 0)
            STARTER_LEASE_ACCOUNTID 1000 2000) = None
   \<and> fst (add_or_renew_leases base32_b2a
         (snd (add_or_renew_leases base32_b2a starter_twice_db example_si (Some 0)
                 STARTER_LEASE_ACCOUNTID 1000 2000))
         example_si (Some 0) STARTER_LEASE_ACCOUNTID 3000 4000) = None
   \<and> map (\<lambda>l. (l_renewal_time l, l_expiration_time l))
       (filter (lease_key (base32_b2a example_si) 0 STARTER_LEASE_ACCOUNTID)
         (leases (snd (add_or_renew_leases base32_b2a
           (snd (add_or_renew_leases base32_b2a starter_twice_db example_si (Some 0)
                   STARTER_LEASE_ACCOUNTID 1000 2000))
           example_si (Some 0) STARTER_LEASE_ACCOUNTID 3000 4000))))
       = [(3000, 4000), (6000, 6000 + STARTER_LEASE_DURATION)]
   \<and> list_ex (share_is (base32_b2a example_si) 0) (shares lifecycle_db)
   \<and> foreign_keys lifecycle_db
   \<and> add_or_renew_leases base32_b2a lifecycle_db example_si (Some 0) 7 1000 2000
       = (Some IntegrityError, lifecycle_db\<lparr>dirty := True\<rparr>)
   \<and> leases lifecycle_db = []
   \<and> map (\<lambda>l. (l_account_id l, l_renewal_time l, l_expiration_time l))
         (leases (stored_share_db False)) = [(ANONYMOUS_ACCOUNTID, 1000, 2000)]
   \<and> fst (add_or_renew_leases base32_b2a (stored_share_db False) example_si (Some 0)
            ANONYMOUS_ACCOUNTID (2 ^ 63) (2 ^ 63 + 1)) = Some OverflowError
   \<and> map (\<lambda>l. (l_account_id l, l_renewal_time l, l_expiration_time l))
         (leases (snd (add_or_renew_leases base32_b2a (stored_share_db False) example_si
            (Some 0) ANONYMOUS_ACCOUNTID (2 ^ 63) (2 ^ 63 + 1))))
       = [(ANONYMOUS_ACCOUNTID, 1000, 2000)]
   \<and> fst (add_or_renew_leases base32_b2a
            ((stored_share_db False)\<lparr>leases_seq := 2 ^ 63 - 1\<rparr>) example_si (Some 0)
            STARTER_LEASE_ACCOUNTID 1000 2000) = Some OperationalError
   \<and> length (leases (snd (add_or_renew_leases base32_b2a
            ((stored_share_db False)\<lparr>leases_seq := 2 ^ 63 - 1\<rparr>) example_si (Some 0)
            STARTER_LEASE_ACCOUNTID 1000 2000))) = 1"
  by code_simp

lemma filter_map_same_key:
  assumes "\<And>s. P (f s) = P s"
  shows "filter P (map f xs) = map f (filter P xs)"
  using assms by (induction xs) auto

text \<open>
  Claim C10, as amended. \<^verbatim>\<open>add_or_renew_leases\<close> on a share that has its row, in
  whatever state (\<open>STATE_GOING\<close> and \<open>STATE_COMING\<close> included), returns normally when
  the account exists or foreign keys are not enforced, the share number, the account and
  the timestamps are integers that the database can store, and the ids of the leases are
  not used up; afterwards the first lease
  row of the share and the account carries the given timestamps, and the share rows are as
  before. The column \<^verbatim>\<open>state\<close> is not read: rewriting it in every row by any function
  \<open>f\<close> gives the same result.
\<close>

theorem C10_lease_whatever_state:
  assumes share: "filter (share_is (si_b2a si) n) (shares db) = [row]"
    and acct: "\<not> foreign_keys db \<or> list_ex (\<lambda>acc. a_id acc = a) (accounts db)"
    and store: "sqlite_int n" "sqlite_int a" "sqlite_int r" "sqlite_int e"
    and ids: "leases_seq db + 1 < 2 ^ 63"
    and call: "add_or_renew_leases si_b2a db si (Some n) a r e = (x, db')"
  shows "x = None
       \<and> (\<exists>l. find (lease_key (si_b2a si) n a) (leases db') = Some l
              \<and> l_renewal_time l = r \<and> l_expiration_time l = e)
       \<and> shares db' = shares db
       \<and> add_or_renew_leases si_b2a
            (db\<lparr>shares := map (\<lambda>s. s\<lparr>s_state := f s\<rparr>) (shares db)\<rparr>) si (Some n) a r e
           = (None, db'\<lparr>shares := map (\<lambda>s. s\<lparr>s_state := f s\<rparr>) (shares db)\<rparr>)"
proof -
  let ?K = "lease_key (si_b2a si) n a"
  let ?g = "\<lambda>s. s\<lparr>s_state := f s\<rparr>"
  let ?db2 = "db\<lparr>shares := map ?g (shares db)\<rparr>"
  have "\<And>s. share_is (si_b2a si) n (?g s) = share_is (si_b2a si) n s"
    by (simp add: share_is_def)
  hence "filter (share_is (si_b2a si) n) (map ?g (shares db))
           = map ?g (filter (share_is (si_b2a si) n) (shares db))"
    by (rule filter_map_same_key)
  hence share2: "filter (share_is (si_b2a si) n) (shares ?db2) = [?g row]"
    using share by simp
  show ?thesis
  proof (cases "find ?K (leases db)")
    case None
    let ?new = "\<lparr>l_id = leases_seq db + 1, l_storage_index = si_b2a si, l_shnum = n,
                 l_account_id = a, l_renewal_time = r, l_expiration_time = e\<rparr>"
    have res: "x = None" "db' = db\<lparr>dirty := True, leases := leases db @ [?new],
                                   leases_seq := leases_seq db + 1\<rparr>"
      using renew_absent [where si_b2a = si_b2a and si = si and r = r and e = e,
          OF share None acct store ids] call by simp_all
    have "find ?K (leases db') = Some ?new"
      using res(2) None by (simp add: find_append_None lease_key_def lease_on_def)
    moreover have "find ?K (leases ?db2) = None" using None by simp
    moreover have "\<not> foreign_keys ?db2 \<or> list_ex (\<lambda>acc. a_id acc = a) (accounts ?db2)"
      using acct by simp
    ultimately show ?thesis
      using res store ids renew_absent [where si_b2a = si_b2a and si = si and r = r
          and e = e and db = ?db2, OF share2]
      by simp
  next
    case (Some l)
    have res: "x = None"
      "db' = db\<lparr>dirty := True, leases := map (update_lease (l_id l) r e) (leases db)\<rparr>"
      using renew_existing [where si_b2a = si_b2a and si = si and r = r and e = e,
          OF share Some store] call by simp_all
    have "find ?K (leases db') = Some (update_lease (l_id l) r e l)"
      using res(2) Some find_map_same_key [of ?K "update_lease (l_id l) r e" "leases db"]
      by simp
    moreover have "l_renewal_time (update_lease (l_id l) r e l) = r"
      "l_expiration_time (update_lease (l_id l) r e l) = e"
      by (simp_all add: update_lease_def)
    moreover have "find ?K (leases ?db2) = Some l" using Some by simp
    ultimately show ?thesis
      using res store renew_existing [where si_b2a = si_b2a and si = si and r = r and e = e
          and db = ?db2, OF share2]
      by simp
  qed
qed

theorem C10_lease_whatever_state_witness:
  "filter (share_is (base32_b2a example_si) 1) (shares lifecycle_db) =
     [\<lparr>s_storage_index = example_si_s, s_shnum = 1, s_prefix = ''aa'', s_backend_key = None,
       s_used_space = 1000, s_sharetype = SHARETYPE_IMMUTABLE, s_state = STATE_GOING\<rparr>]
   \<and> list_ex (\<lambda>acc. a_id acc = ANONYMOUS_ACCOUNTID) (accounts lifecycle_db)
   \<and> sqlite_int 1 \<and> sqlite_int ANONYMOUS_ACCOUNTID \<and> sqlite_int 1000 \<and> sqlite_int 2000
   \<and> leases_seq lifecycle_db + 1 < 2 ^ 63
   \<and> fst (add_or_renew_leases base32_b2a lifecycle_db example_si (Some 1)
            ANONYMOUS_ACCOUNTID 1000 2000) = None
   \<and> (\<exists>l. find (lease_key (base32_b2a example_si) 1 ANONYMOUS_ACCOUNTID)
            (leases (snd (add_or_renew_leases base32_b2a lifecycle_db example_si (Some 1)
                            ANONYMOUS_ACCOUNTID 1000 2000))) = Some l
          \<and> l_renewal_time l = 1000 \<and> l_expiration_time l = 2000)
   \<and> shares (snd (add_or_renew_leases base32_b2a lifecycle_db example_si (Some 1)
                    ANONYMOUS_ACCOUNTID 1000 2000)) = shares lifecycle_db
   \<and> add_or_renew_leases base32_b2a
        (lifecycle_db\<lparr>shares := map (\<lambda>s. s\<lparr>s_state := STATE_STABLE\<rparr>) (shares lifecycle_db)\<rparr>)
        example_si (Some 1) ANONYMOUS_ACCOUNTID 1000 2000
       = (None, (snd (add_or_renew_leases base32_b2a lifecycle_db example_si (Some 1)
                        ANONYMOUS_ACCOUNTID 1000 2000))
                \<lparr>shares := map (\<lambda>s. s\<lparr>s_state := STATE_STABLE\<rparr>) (shares lifecycle_db)\<rparr>)"
proof -
  let ?a = "add_or_renew_leases base32_b2a lifecycle_db example_si (Some 1)
              ANONYMOUS_ACCOUNTID 1000 2000"
  have h1: "filter (share_is (base32_b2a example_si) 1) (shares lifecycle_db) =
     [\<lparr>s_storage_index = example_si_s, s_shnum = 1, s_prefix = ''aa'', s_backend_key = None,
       s_used_space = 1000, s_sharetype = SHARETYPE_IMMUTABLE, s_state = STATE_GOING\<rparr>]"
    by (simp add: lifecycle_db_rows example_b2a share_is_def)
  have h2: "list_ex (\<lambda>acc. a_id acc = ANONYMOUS_ACCOUNTID) (accounts lifecycle_db)"
    by code_simp
  have k: "sqlite_int 1" "sqlite_int ANONYMOUS_ACCOUNTID" "sqlite_int 1000" "sqlite_int 2000"
    by (simp_all add: sqlite_int_def ANONYMOUS_ACCOUNTID_def)
  have q: "leases_seq lifecycle_db + 1 < 2 ^ 63" by code_simp
  have c: "?a = (fst ?a, snd ?a)" by simp
  from C10_lease_whatever_state [where si_b2a = base32_b2a and si = example_si
      and f = "\<lambda>s. STATE_STABLE", OF h1 disjI2 [OF h2] k q c] h1 h2 k q
  show ?thesis by blast
qed

text \<open>
  Claim C10 as stated fails in two ways on the going share 1 of \<open>lifecycle_db\<close>, where
  foreign keys are enforced. For the account 7, which has no row, the call raises
  \<^verbatim>\<open>IntegrityError\<close>; for the timestamps \<open>2 ^ 63\<close> and \<open>2 ^ 63 + 1\<close> and the anonymous
  account it raises \<^verbatim>\<open>OverflowError\<close>; and once the largest id, \<open>2 ^ 63 - 1\<close>, has
  been handed out, it raises \<^verbatim>\<open>OperationalError\<close>. Each time the share has no lease
  afterwards.
\<close>

theorem C10_going_share_counterexample:
  "share_state lifecycle_db (base32_b2a example_si) 1 = Some STATE_GOING
   \<and> foreign_keys lifecycle_db
   \<and> fst (add_or_renew_leases base32_b2a lifecycle_db example_si (Some 1) 7 1000 2000)
       = Some IntegrityError
   \<and> leases (snd (add_or_renew_leases base32_b2a lifecycle_db example_si (Some 1) 7 1000 2000))
       = []
   \<and> fst (add_or_renew_leases base32_b2a lifecycle_db example_si (Some 1)
            ANONYMOUS_ACCOUNTID (2 ^ 63) (2 ^ 63 + 1)) = Some OverflowError
   \<and> leases (snd (add_or_renew_leases base32_b2a lifecycle_db example_si (Some 1)
                    ANONYMOUS_ACCOUNTID (2 ^ 63) (2 ^ 63 + 1))) = []
   \<and> fst (add_or_renew_leases base32_b2a (lifecycle_db\<lparr>leases_seq := 2 ^ 63 - 1\<rparr>)
            example_si (Some 1) ANONYMOUS_ACCOUNTID 1000 2000) = Some OperationalError
   \<and> leases (snd (add_or_renew_leases base32_b2a (lifecycle_db\<lparr>leases_seq := 2 ^ 63 - 1\<rparr>)
                    example_si (Some 1) ANONYMOUS_ACCOUNTID 1000 2000)) = []"
  by code_simp

section \<open>The crawler history\<close>

lemma py_position_retained:
  assumes "1 \<le> R" and "R \<le> int n"
  shows "py_position n (- (R - 1)) = Some (if R = 1 then 0 else nat (int n - (R - 1)))"
proof -
  have "int n + (1 - R) = int n - (R - 1)" by simp
  thus ?thesis using assms by (auto simp: py_position_def)
qed

lemma py_index_retained:
  assumes "1 \<le> R" and "R \<le> int (length xs)"
  shows "py_index (sort xs) (- (R - 1))
           = Inr (sort xs ! (if R = 1 then 0 else nat (int (length xs) - (R - 1))))"
  using py_position_retained [OF assms] by (simp add: py_index_def)

lemma get_history_last:
  assumes "crawler_history db = xs @ [(c, j)]"
  shows "get_history loads db c = Some (loads j)"
  using assms by (simp add: get_history_def)

lemma add_history_entry_shape:
  assumes call: "add_history_entry dumps db c e = (x, db')"
  shows "(x \<noteq> None \<and> db' = db) \<or>
         (x = None \<and> (\<exists>Q. crawler_history db'
             = filter (\<lambda>(c', j). c' \<noteq> c) (filter Q (crawler_history db)) @ [(c, dumps e)]))"
proof (cases "retained_history_entries db \<le> int (length (crawler_history db))")
  case False
  hence "x = None \<and> crawler_history db'
      = filter (\<lambda>(c', j). c' \<noteq> c) (filter (\<lambda>_. True) (crawler_history db)) @ [(c, dumps e)]"
    using call by (auto simp: add_history_entry_def Let_def commit_def)
  thus ?thesis by blast
next
  case True
  show ?thesis
  proof (cases "py_index (sort (map fst (crawler_history db)))
                  (- (retained_history_entries db - 1))")
    case (Inl err)
    thus ?thesis using call True by (auto simp: add_history_entry_def Let_def)
  next
    case (Inr v)
    hence "x = None \<and> crawler_history db'
      = filter (\<lambda>(c', j). c' \<noteq> c) (filter (\<lambda>(c', j). \<not> c' < v) (crawler_history db))
          @ [(c, dumps e)]"
      using call True by (auto simp: add_history_entry_def Let_def commit_def)
    thus ?thesis by blast
  qed
qed

lemma history_cycles_unique:
  assumes d: "distinct (map fst (crawler_history db))"
    and call: "add_history_entry dumps db c e = (x, db')"
  shows "distinct (map fst (crawler_history db'))"
proof -
  have "\<And>Q. distinct (map fst (filter (\<lambda>(c', j). c' \<noteq> c) (filter Q (crawler_history db))
           @ [(c, dumps e)]))"
    using d by (auto simp: distinct_map_filter)
  thus ?thesis using add_history_entry_shape [OF call] d by auto
qed

lemma pruned_length:
  fixes h :: "(int \<times> string) list"
  assumes R: "2 \<le> R" and n: "R \<le> int (length h)" and d: "distinct (map fst h)"
  shows "int (length (filter (\<lambda>(c, j). \<not> c < sort (map fst h) ! nat (int (length h) - (R - 1))) h))
           = R - 1"
proof -
  let ?ys = "sort (map fst h)"
  let ?k = "nat (int (length h) - (R - 1))"
  have k: "?k < length ?ys" using R n by simp
  have "length (filter (\<lambda>(c, j). \<not> c < ?ys ! ?k) h)
          = length (filter (\<lambda>c. \<not> c < ?ys ! ?k) (map fst h))"
    by (rule length_filter_fst)
  also have "\<dots> = length (sort (filter (\<lambda>c. \<not> c < ?ys ! ?k) (map fst h)))" by simp
  also have "\<dots> = length (filter (\<lambda>c. \<not> c < ?ys ! ?k) ?ys)"
    by (simp only: filter_sort)
  also have "\<dots> = length (drop ?k ?ys)"
    using sorted_distinct_filter_ge [of ?ys ?k] d k by simp
  finally show ?thesis using R n by simp
qed

lemma history_pruned_to_bound:
  assumes R: "2 \<le> retained_history_entries db"
    and d: "distinct (map fst (crawler_history db))"
    and call: "add_history_entry dumps db c e = (x, db')"
  shows "x = None \<and> int (length (crawler_history db')) \<le> retained_history_entries db"
proof (cases "retained_history_entries db \<le> int (length (crawler_history db))")
  case False
  hence "x = None \<and> crawler_history db'
      = filter (\<lambda>(c', j). c' \<noteq> c) (crawler_history db) @ [(c, dumps e)]"
    using call by (auto simp: add_history_entry_def Let_def commit_def)
  moreover have "int (length (filter (\<lambda>(c', j). c' \<noteq> c) (crawler_history db)))
      \<le> int (length (crawler_history db))" by simp
  ultimately show ?thesis using False by (simp del: length_filter_le)
next
  case True
  let ?h = "crawler_history db"
  let ?R = "retained_history_entries db"
  let ?v = "sort (map fst ?h) ! nat (int (length ?h) - (?R - 1))"
  have R1: "1 \<le> ?R" "?R \<noteq> 1" using R by simp_all
  have ix: "py_index (sort (map fst ?h)) (- (?R - 1)) = Inr ?v"
    using py_index_retained [of ?R "map fst ?h"] R1 True by simp
  have "x = None \<and> crawler_history db'
      = filter (\<lambda>(c', j). c' \<noteq> c) (filter (\<lambda>(c', j). \<not> c' < ?v) ?h) @ [(c, dumps e)]"
    using call True ix by (auto simp: add_history_entry_def Let_def commit_def)
  moreover have "length (filter (\<lambda>(c', j). c' \<noteq> c) (filter (\<lambda>(c', j). \<not> c' < ?v) ?h))
      \<le> length (filter (\<lambda>(c', j). \<not> c' < ?v) ?h)" by (rule length_filter_le)
  moreover have "int (length (filter (\<lambda>(c', j). \<not> c' < ?v) ?h)) = ?R - 1"
    using pruned_length [OF R True d] .
  ultimately show ?thesis by simp
qed

text \<open>
  Claim C9, as amended. If a history entry for the cycle \<open>c\<close> exists and
  \<^verbatim>\<open>retained_history_entries\<close> is at least 1, \<^verbatim>\<open>add_history_entry(c, e2)\<close>
  returns normally; afterwards
  \<^verbatim>\<open>get_history()[c]\<close> is \<open>e2\<close> after its round trip through JSON, and the table has
  no more rows than before.
\<close>

theorem C9_history_entry_replaced:
  assumes ex: "c \<in> set (map fst (crawler_history db))"
    and R: "1 \<le> retained_history_entries db"
    and call: "add_history_entry dumps db c e2 = (x, db')"
  shows "x = None \<and> get_history loads db' c = Some (loads (dumps e2))
         \<and> length (crawler_history db') \<le> length (crawler_history db)"
proof -
  let ?h = "crawler_history db"
  let ?R = "retained_history_entries db"
  let ?P = "\<lambda>(c', j). c' \<noteq> c"
  obtain Q where shape: "x = None"
      "crawler_history db' = filter ?P (filter Q ?h) @ [(c, dumps e2)]"
  proof (cases "?R \<le> int (length (map fst ?h))")
    case False
    hence "x = None \<and> crawler_history db' = filter ?P (filter (\<lambda>_. True) ?h) @ [(c, dumps e2)]"
      using call by (auto simp: add_history_entry_def Let_def commit_def)
    thus ?thesis using that by blast
  next
    case True
    from py_index_retained [OF R True]
    obtain v where "py_index (sort (map fst ?h)) (- (?R - 1)) = Inr v"
      by blast
    hence "x = None \<and> crawler_history db'
             = filter ?P (filter (\<lambda>(c', j). \<not> c' < v) ?h) @ [(c, dumps e2)]"
      using call True by (auto simp: add_history_entry_def Let_def commit_def)
    thus ?thesis using that by blast
  qed
  obtain row where row: "row \<in> set ?h" "fst row = c" using ex by auto
  have "length (filter ?P (filter Q ?h)) = length (filter (\<lambda>r. Q r \<and> ?P r) ?h)"
    by simp
  also have "\<dots> < length ?h"
    using row by (intro length_filter_less [of row]) auto
  finally have "length (crawler_history db') \<le> length ?h"
    using shape(2) by simp
  moreover have "get_history loads db' c = Some (loads (dumps e2))"
    using shape(2) by (rule get_history_last)
  ultimately show ?thesis using shape(1) by simp
qed

theorem C9_history_entry_replaced_witness:
  "1 \<in> set (map fst (crawler_history (history_db 10 [1, 2])))
   \<and> 1 \<le> retained_history_entries (history_db 10 [1, 2])
   \<and> fst (add_history_entry (\<lambda>e :: string. e) (history_db 10 [1, 2]) 1 ''[2]'') = None
   \<and> get_history (\<lambda>j :: string. j)
        (snd (add_history_entry (\<lambda>e :: string. e) (history_db 10 [1, 2]) 1 ''[2]'')) 1
       = Some ''[2]''
   \<and> length (crawler_history
        (snd (add_history_entry (\<lambda>e :: string. e) (history_db 10 [1, 2]) 1 ''[2]'')))
       \<le> length (crawler_history (history_db 10 [1, 2]))"
proof -
  let ?a = "add_history_entry (\<lambda>e :: string. e) (history_db 10 [1, 2]) 1 ''[2]''"
  have h1: "1 \<in> set (map fst (crawler_history (history_db 10 [1, 2])))" by code_simp
  have h2: "1 \<le> retained_history_entries (history_db 10 [1, 2])" by code_simp
  have c: "?a = (fst ?a, snd ?a)" by simp
  from C9_history_entry_replaced [where loads = "\<lambda>j :: string. j", OF h1 h2 c] h1 h2
  show ?thesis by blast
qed

text \<open>
  Claim C9 as stated fails where \<^verbatim>\<open>retained_history_entries\<close> is 0 and the table holds
  the one entry of cycle 1: the index \<^verbatim>\<open>-(0 - 1)\<close> is 1, beyond the one sorted row,
  so \<^verbatim>\<open>add_history_entry(1, e2)\<close> raises \<^verbatim>\<open>IndexError\<close>, and the entry of cycle 1 is
  the old one.
\<close>

theorem C9_retain_none_counterexample:
  "map fst (crawler_history retain_none_db) = [1]
   \<and> retained_history_entries retain_none_db = 0
   \<and> fst (add_history_entry (\<lambda>e :: string. e) retain_none_db 1 ''[2]'') = Some IndexError
   \<and> get_history (\<lambda>j :: string. j)
        (snd (add_history_entry (\<lambda>e :: string. e) retain_none_db 1 ''[2]'')) 1 = Some ''{}''"
  by code_simp

text \<open>
  Claim C6, at the input where the code breaks it. With \<^verbatim>\<open>retained_history_entries\<close>
  set to 1, the index \<^verbatim>\<open>-(retained_history_entries - 1)\<close> is 0, the first cycle to
  retain is the smallest one, and nothing is ever pruned: after the entries of the cycles
  1, 2 and 3 the table holds three rows.
\<close>

theorem C6_retain_one_never_prunes:
  "retained_history_entries (history_db 1 [1, 2, 3]) = 1
   \<and> map fst (crawler_history (history_db 1 [1, 2, 3])) = [1, 2, 3]"
  by code_simp

text \<open>
  From two retained entries on, the bound of claim C6 holds (\<open>history_pruned_to_bound\<close>,
  with \<open>pruned_length\<close> for the \<open>retained_history_entries - 1\<close> rows that remain before
  the insertion), and the spec's sixth scenario comes out as stated.
\<close>

lemma history_scenario_retain_three:
  "map fst (crawler_history (history_db 3 [1, 2, 3, 4, 5])) = [3, 4, 5]"
  by code_simp

section \<open>The crawler's reconciliation and the expiration sweep\<close>

text \<open>
  Whatever the codec is: the share found on disk is added under \<open>si_b2a (si_a2b si_s)\<close>,
  and its starter lease under \<open>si_b2a si_s\<close>.
\<close>

lemma new_share_lease_key:
  assumes "si_a2b si_s = Inr si"
    and "\<not> list_ex (share_is (si_b2a si) shnum) (shares db)"
    and "\<not> foreign_keys db"
    and "sqlite_int shnum" and "sqlite_int now" and "sqlite_int (now + 5184000)"
    and "leases_seq db + 1 < 2 ^ 63"
  shows "add_new_shares si_b2a si_a2b gus now prefixdir db [(si_s, shnum)] =
     (None, db\<lparr>dirty := True,
        shares := shares db @
          [\<lparr>s_storage_index = si_b2a si, s_shnum = shnum, s_prefix = take 2 (si_b2a si),
            s_backend_key = None, s_used_space = gus prefixdir si_s shnum,
            s_sharetype = SHARETYPE_UNKNOWN, s_state = STATE_COMING\<rparr>],
        leases := leases db @
          [\<lparr>l_id = leases_seq db + 1, l_storage_index = si_b2a si_s, l_shnum = shnum,
            l_account_id = STARTER_LEASE_ACCOUNTID, l_renewal_time = now,
            l_expiration_time = now + 5184000\<rparr>],
        leases_seq := leases_seq db + 1\<rparr>)"
  using assms
  by (simp add: add_new_share_def add_starter_lease_def insert_lease_def Let_def
      STARTER_LEASE_DURATION_def MONTH_def DAY_def STARTER_LEASE_ACCOUNTID_def)
     (simp add: sqlite_int_def)

text \<open>
  Whatever the codec and the disk are: if the database holds a share for the prefix that
  is not on disk, \<^verbatim>\<open>process_prefixdir\<close> raises, and the row of the share and all
  leases are still in the database afterwards.
\<close>

lemma remove_deleted_shares_raises:
  "deleted_shares \<noteq> [] \<Longrightarrow>
   remove_deleted_shares si_b2a si_a2b db deleted_shares = (Some ValueError, db)"
  by (cases deleted_shares) (simp_all add: unpack3_def)

lemma examine_shares_leasedb:
  "c_leasedb (fst (snd (examine_shares si_b2a si_a2b start_slice self sharesets items)))
     = c_leasedb self"
proof (induction items arbitrary: self sharesets)
  case Nil
  show ?case by simp
next
  case (Cons item items)
  obtain si_s shnum used_space sharetype where item:
    "item = ((si_s, shnum), (used_space, sharetype))" by (cases item) auto
  have hist: "c_leasedb (fold (\<lambda>age c. add_lease_age_to_histogram c age) ages c) = c_leasedb c"
    for ages c
    by (induction ages arbitrary: c) (simp_all add: add_lease_age_to_histogram_def Let_def)
  show ?case unfolding item
    by (simp add: Let_def Cons.IH hist split: option.splits sum.splits)
qed

lemma add_new_shares_keeps:
  "set (shares db) \<subseteq> set (shares (snd (add_new_shares si_b2a si_a2b gus now pd db xs)))
   \<and> set (leases db) \<subseteq> set (leases (snd (add_new_shares si_b2a si_a2b gus now pd db xs)))"
proof (induction xs arbitrary: db)
  case Nil
  show ?case by simp
next
  case (Cons x xs)
  obtain si_s shnum where x: "x = (si_s, shnum)" by (cases x)
  show ?case
  proof (cases "si_a2b si_s")
    case (Inl e)
    thus ?thesis unfolding x by simp
  next
    case (Inr si)
    obtain y1 db1 where a1: "add_new_share si_b2a db si shnum (gus pd si_s shnum)
        SHARETYPE_UNKNOWN = (y1, db1)" by force
    have k1: "set (shares db) \<subseteq> set (shares db1)" "leases db1 = leases db"
      using a1 by (auto simp: add_new_share_def Let_def split: if_splits)
    show ?thesis
    proof (cases y1)
      case (Some e)
      thus ?thesis unfolding x using Inr a1 k1 by simp
    next
      case None
      obtain y2 db2 where a2: "add_starter_lease si_b2a now db1 si_s shnum = (y2, db2)"
        by force
      have k2: "shares db2 = shares db1" "set (leases db1) \<subseteq> set (leases db2)"
        using a2 by (auto simp: add_starter_lease_def insert_lease_def Let_def split: if_splits)
      show ?thesis
      proof (cases y2)
        case (Some e)
        thus ?thesis unfolding x using Inr a1 None a2 k1 k2 by simp
      next
        case None': None
        have "set (shares db2) \<subseteq> set (shares (snd (add_new_shares si_b2a si_a2b gus now pd db2 xs)))"
          "set (leases db2) \<subseteq> set (leases (snd (add_new_shares si_b2a si_a2b gus now pd db2 xs)))"
          using Cons.IH [of db2] by simp_all
        thus ?thesis unfolding x using Inr a1 None a2 None' k1 k2 by auto
      qed
    qed
  qed
qed

lemma vanished_share_not_removed:
  assumes row: "s \<in> set (shares (c_leasedb self))" and pre: "s_prefix s = prefix"
    and gone: "(s_storage_index s, s_shnum s) \<notin> set (disk_shares_of listdir prefixdir buckets)"
  shows "fst (process_prefixdir si_b2a si_a2b listdir gus now self cycle prefix prefixdir
                buckets start_slice) \<noteq> None
       \<and> s \<in> set (shares (c_leasedb (snd (process_prefixdir si_b2a si_a2b listdir gus now self
                cycle prefix prefixdir buckets start_slice))))
       \<and> set (leases (c_leasedb self))
           \<subseteq> set (leases (c_leasedb (snd (process_prefixdir si_b2a si_a2b listdir gus now self
                cycle prefix prefixdir buckets start_slice))))"
proof -
  let ?disk = "disk_shares_of listdir prefixdir buckets"
  let ?map = "get_shares_for_prefix (c_leasedb self) prefix"
  let ?dbs = "remdups (map fst ?map)"
  have "(s_storage_index s, s_shnum s) \<in> set ?dbs"
    using row pre by (force simp: get_shares_for_prefix_def)
  hence "(s_storage_index s, s_shnum s)
            \<in> set (filter (\<lambda>shareid. shareid \<notin> set ?disk) ?dbs)"
    using gone by simp
  hence del: "filter (\<lambda>shareid. shareid \<notin> set ?disk) ?dbs \<noteq> []"
    by (metis empty_iff empty_set)
  obtain y1 self1 sets where ex: "examine_shares si_b2a si_a2b start_slice self
      (replicate (length SHARETYPES) []) ?map = (y1, self1, sets)"
    by (cases "examine_shares si_b2a si_a2b start_slice self
      (replicate (length SHARETYPES) []) ?map") auto
  have db1: "c_leasedb self1 = c_leasedb self"
    using examine_shares_leasedb [of si_b2a si_a2b start_slice self
        "replicate (length SHARETYPES) []" ?map] ex by simp
  show ?thesis
  proof (cases y1)
    case (Some e)
    thus ?thesis using ex db1 row by (simp add: process_prefixdir_def Let_def)
  next
    case None
    let ?new = "filter (\<lambda>shareid. shareid \<notin> set ?dbs) ?disk"
    obtain y2 db2 where an: "add_new_shares si_b2a si_a2b gus now prefixdir
        (c_leasedb self) ?new = (y2, db2)" by force
    have keep: "set (shares (c_leasedb self)) \<subseteq> set (shares db2)"
      "set (leases (c_leasedb self)) \<subseteq> set (leases db2)"
      using add_new_shares_keeps [of "c_leasedb self" si_b2a si_a2b gus now prefixdir ?new] an
      by simp_all
    show ?thesis
    proof (cases y2)
      case (Some e)
      thus ?thesis using ex None db1 an keep row
        by (auto simp: process_prefixdir_def Let_def)
    next
      case None': None
      have "remove_deleted_shares si_b2a si_a2b db2
              (filter (\<lambda>shareid. shareid \<notin> set ?disk) ?dbs) = (Some ValueError, db2)"
        using del by (rule remove_deleted_shares_raises)
      thus ?thesis using ex None db1 an None' keep row
        by (auto simp: process_prefixdir_def Let_def)
    qed
  qed
qed

text \<open>
  Claim C3, at an input where the code breaks it: the spec's first scenario, a new
  database and the one share file \<^verbatim>\<open>aa/aaaaaaaaaaaaaaaaaaaaaaaaaa/0\<close> of 1000 bytes.
  \<^verbatim>\<open>process_prefixdir\<close> adds the share row as the claim says, but it passes the ASCII
  storage index to \<^verbatim>\<open>add_starter_lease\<close>, which renders it in base 32 once more.
  Without foreign keys the one lease is stored under that other storage index, and the
  new share has no lease; with foreign keys the insertion of the lease raises
  \<^verbatim>\<open>IntegrityError\<close>, and nothing is committed.
\<close>

theorem C3_starter_lease_on_other_key:
  "(case process_prefixdir base32_b2a base32_a2b one_file_listdir one_file_used_space 5000
           (crawler_on (LeaseDB_init False)) 1 ''aa'' ''storage/shares/aa'' [example_si_s] 5000 of
      (x, c) \<Rightarrow>
        x = None
        \<and> shares (c_leasedb c) =
            [\<lparr>s_storage_index = example_si_s, s_shnum = 0, s_prefix = ''aa'',
              s_backend_key = None, s_used_space = 1000, s_sharetype = SHARETYPE_UNKNOWN,
              s_state = STATE_COMING\<rparr>]
        \<and> leases (c_leasedb c) =
            [\<lparr>l_id = 1, l_storage_index = ''mfqwcylbmfqwcylbmfqwcylbmfqwcylbmfqwcylbme'',
              l_shnum = 0, l_account_id = STARTER_LEASE_ACCOUNTID, l_renewal_time = 5000,
              l_expiration_time = 5000 + 5184000\<rparr>]
        \<and> filter (lease_on example_si_s 0) (leases (c_leasedb c)) = [])
   \<and> (case process_prefixdir base32_b2a base32_a2b one_file_listdir one_file_used_space 5000
           (crawler_on (LeaseDB_init True)) 1 ''aa'' ''storage/shares/aa'' [example_si_s] 5000 of
      (x, c) \<Rightarrow>
        x = Some IntegrityError
        \<and> leases (c_leasedb c) = []
        \<and> committed (c_leasedb c) = committed (LeaseDB_init True))"
  by code_simp

text \<open>
  Claim C4, at an input where the code breaks it: the database holds a share and its lease,
  and the prefix directory is empty. The loop over the deleted shares unpacks a pair into
  three names; \<^verbatim>\<open>process_prefixdir\<close> raises \<^verbatim>\<open>ValueError\<close> before it calls
  \<^verbatim>\<open>remove_deleted_share\<close>, and the share row and the lease row are still there.
\<close>

theorem C4_vanished_share_raises:
  "map (\<lambda>s. (s_storage_index s, s_shnum s)) (shares (stored_share_db False))
     = [(example_si_s, 0)]
   \<and> (case process_prefixdir base32_b2a base32_a2b empty_listdir one_file_used_space 5000
           (crawler_on (stored_share_db False)) 1 ''aa'' ''storage/shares/aa'' [] 5000 of
      (x, c) \<Rightarrow>
        x = Some ValueError
        \<and> map (\<lambda>s. (s_storage_index s, s_shnum s)) (shares (c_leasedb c))
            = [(example_si_s, 0)]
        \<and> map (\<lambda>l. (l_storage_index l, l_shnum l)) (leases (c_leasedb c))
            = [(example_si_s, 0)])"
  by code_simp

text \<open>
  Claim C1, at an input where the code breaks it: the lease of \<open>stored_share_db\<close> was
  renewed at 1000, so at 1101 the policy that lets leases last 100 seconds says that it
  should expire. \<^verbatim>\<open>remove_expired_leases\<close> raises \<^verbatim>\<open>NotImplementedError\<close> and
  leaves the database as it was: the lease is not deleted and nothing is committed.
\<close>

theorem C1_remove_expired_leases_raises:
  "map (\<lambda>l. (l_renewal_time l, l_expiration_time l)) (leases (stored_share_db False))
     = [(1000, 2000)]
   \<and> should_expire age_100_policy 1101 1000 2000
   \<and> remove_expired_leases (stored_share_db False) age_100_policy
       = (Some NotImplementedError, stored_share_db False)"
  by (simp add: stored_share_db_leases remove_expired_leases_def should_expire_def
      age_100_policy_def)

end
